theory Spec2Isabelle
  imports Main
begin

section \<open>Python text\<close>

text \<open>
  A Python \<open>str\<close> is a sequence of Unicode code points, so a document, a file name and a
  shell command are lists of code points (natural numbers). \<open>py\<close> turns an ASCII literal
  of the theory into such a text.
\<close>

type_synonym pystr = "nat list"

definition py :: "string \<Rightarrow> pystr" where
  "py s = map of_char s"

abbreviation NEWLINE :: nat where "NEWLINE \<equiv> 10"
abbreviation DQUOTE :: nat where "DQUOTE \<equiv> 34"
abbreviation COMMA :: nat where "COMMA \<equiv> 44"
abbreviation BACKSLASH :: nat where "BACKSLASH \<equiv> 92"

text \<open>
  \<open>str.isspace\<close> of one code point; the same test (\<open>Py_UNICODE_ISSPACE\<close>) decides what
  \<open>\s\<close> matches in a \<open>str\<close> pattern and what \<open>str.strip()\<close> removes.
\<close>

definition isspace :: "nat \<Rightarrow> bool" where
  "isspace c \<longleftrightarrow>
     (9 \<le> c \<and> c \<le> 13) \<or> (28 \<le> c \<and> c \<le> 32) \<or> c = 133 \<or> c = 160 \<or> c = 5760 \<or>
     (8192 \<le> c \<and> c \<le> 8202) \<or> c = 8232 \<or> c = 8233 \<or> c = 8239 \<or> c = 8287 \<or> c = 12288"

definition strip :: "pystr \<Rightarrow> pystr" where
  "strip s = rev (dropWhile isspace (rev (dropWhile isspace s)))"

definition endswith :: "pystr \<Rightarrow> pystr \<Rightarrow> bool" where
  "endswith s suffix \<longleftrightarrow> length suffix \<le> length s \<and> drop (length s - length suffix) s = suffix"

section \<open>The regular expression\<close>

text \<open>
  \<open>pattern = r'(const\s+images\s*=\s*\[)(.*?)(\];)'\<close>, used with \<open>re.DOTALL\<close>.

  A match object is kept as the five pieces of the searched text: what precedes the
  match, the three groups and what follows the match.
\<close>

record re_match =
  pre :: pystr
  g1 :: pystr
  g2 :: pystr
  g3 :: pystr
  post :: pystr

text \<open>The pieces of the pattern; each returns the text left after what it consumed.\<close>

fun literal :: "pystr \<Rightarrow> pystr \<Rightarrow> pystr option" where
  "literal [] s = Some s"
| "literal (p # ps) [] = None"
| "literal (p # ps) (c # cs) = (if p = c then literal ps cs else None)"

text \<open>
  \<open>\s*\<close> and \<open>\s+\<close> are greedy. Each is followed in the pattern by a literal that is no
  white space (\<open>i\<close>, \<open>=\<close>, \<open>[\<close>), so giving back a consumed white space can never make
  the next literal match: the longest run is the only candidate.
\<close>

definition spaces0 :: "pystr \<Rightarrow> pystr option" where
  "spaces0 s = Some (dropWhile isspace s)"

definition spaces1 :: "pystr \<Rightarrow> pystr option" where
  "spaces1 s = (case s of [] \<Rightarrow> None | c # cs \<Rightarrow> if isspace c then spaces0 cs else None)"

text \<open>Group 1, \<open>(const\s+images\s*=\s*\[)\<close>, at the start of \<open>s\<close>: the group and the rest.\<close>

definition group1 :: "pystr \<Rightarrow> (pystr \<times> pystr) option" where
  "group1 s =
     (case literal (py ''const'') s of None \<Rightarrow> None | Some r1 \<Rightarrow>
      case spaces1 r1 of None \<Rightarrow> None | Some r2 \<Rightarrow>
      case literal (py ''images'') r2 of None \<Rightarrow> None | Some r3 \<Rightarrow>
      case spaces0 r3 of None \<Rightarrow> None | Some r4 \<Rightarrow>
      case literal (py ''='') r4 of None \<Rightarrow> None | Some r5 \<Rightarrow>
      case spaces0 r5 of None \<Rightarrow> None | Some r6 \<Rightarrow>
      case literal (py ''['') r6 of None \<Rightarrow> None | Some r7 \<Rightarrow>
        Some (take (length s - length r7) s, r7))"

text \<open>
  Groups 2 and 3, \<open>(.*?)(\];)\<close> with DOTALL: the lazy star takes as few characters (of
  any kind) as possible, so group 2 ends at the first \<open>];\<close>. The result is group 2 and
  the text after \<open>];\<close>.
\<close>

fun lazy_body :: "pystr \<Rightarrow> (pystr \<times> pystr) option" where
  "lazy_body [] = None"
| "lazy_body (c # cs) =
     (case literal (py ''];'') (c # cs) of
        Some r \<Rightarrow> Some ([], r)
      | None \<Rightarrow> (case lazy_body cs of None \<Rightarrow> None | Some (b, r) \<Rightarrow> Some (c # b, r)))"

text \<open>The whole pattern at the start of \<open>s\<close> (\<open>re.match\<close>).\<close>

definition match_here :: "pystr \<Rightarrow> re_match option" where
  "match_here s =
     (case group1 s of None \<Rightarrow> None | Some (opening, r) \<Rightarrow>
      case lazy_body r of None \<Rightarrow> None | Some (body, r') \<Rightarrow>
        Some \<lparr>pre = [], g1 = opening, g2 = body, g3 = py ''];'', post = r'\<rparr>)"

text \<open>\<open>re.search\<close>: the match at the leftmost position that has one.\<close>

fun re_search :: "pystr \<Rightarrow> re_match option" where
  "re_search [] = match_here []"
| "re_search (c # cs) =
     (case match_here (c # cs) of
        Some m \<Rightarrow> Some m
      | None \<Rightarrow> (case re_search cs of None \<Rightarrow> None | Some m \<Rightarrow> Some (m\<lparr>pre := c # pre m\<rparr>)))"

section \<open>The replacement template of \<open>re.sub\<close>\<close>

text \<open>
  \<open>re.sub\<close> does not insert its replacement string as it is: it parses it as a template
  (\<open>parse_template\<close> of CPython 3.12's \<open>re._parser\<close>), in which a backslash starts a group
  reference (\<open>\1\<close>, \<open>\g<1>\<close>), an octal escape (\<open>\0\<close>, \<open>\101\<close>) or a character escape
  (\<open>\n\<close>), and raises an exception for any other backslash followed by an ASCII letter
  or at the end. Every exception of the parser (\<open>re.error\<close>, \<open>IndexError\<close>) is the one
  value \<open>TemplateError\<close>. Versions before 3.12 differ in one place only: in \<open>\g<...>\<close>
  they still accept, with a deprecation warning, every group number that \<open>int\<close> reads
  (a sign, white space, digits of other scripts); no statement below depends on it.
\<close>

text \<open>
  The exceptions that reach the caller: the one of the template parser, and the two that
  text input and output raise (of a file, or of the output of a command).
\<close>

datatype exn = TemplateError | UnicodeDecodeError | UnicodeEncodeError

datatype piece = Lit nat | Group nat

definition isdigit :: "nat \<Rightarrow> bool" where
  "isdigit c \<longleftrightarrow> 48 \<le> c \<and> c \<le> 57"

definition isoctdigit :: "nat \<Rightarrow> bool" where
  "isoctdigit c \<longleftrightarrow> 48 \<le> c \<and> c \<le> 55"

definition isasciiletter :: "nat \<Rightarrow> bool" where
  "isasciiletter c \<longleftrightarrow> (65 \<le> c \<and> c \<le> 90) \<or> (97 \<le> c \<and> c \<le> 122)"

text \<open>\<open>ESCAPES\<close>: \<open>\a \b \f \n \r \t \v \\\<close>.\<close>

definition escapes :: "nat \<Rightarrow> nat option" where
  "escapes c =
     (if c = 97 then Some 7 else if c = 98 then Some 8 else if c = 102 then Some 12
      else if c = 110 then Some 10 else if c = 114 then Some 13 else if c = 116 then Some 9
      else if c = 118 then Some 11 else if c = 92 then Some 92 else None)"

definition digit :: "nat \<Rightarrow> nat" where
  "digit c = c - 48"

definition int_of_digits :: "pystr \<Rightarrow> nat" where
  "int_of_digits name = foldl (\<lambda>a c. 10 * a + digit c) 0 name"

text \<open>\<open>getuntil\<close>: the text up to the terminator, and the text after it.\<close>

fun getuntil :: "nat \<Rightarrow> pystr \<Rightarrow> (pystr \<times> pystr) option" where
  "getuntil t [] = None"
| "getuntil t (c # cs) =
     (if c = t then Some ([], cs)
      else (case getuntil t cs of None \<Rightarrow> None | Some (name, r) \<Rightarrow> Some (c # name, r)))"

text \<open>The pattern has three groups and no named group.\<close>

definition pattern_groups :: nat where
  "pattern_groups = 3"

definition addliteral :: "nat list \<Rightarrow> exn + piece list \<Rightarrow> exn + piece list" where
  "addliteral cs rest = (case rest of Inl e \<Rightarrow> Inl e | Inr ps \<Rightarrow> Inr (map Lit cs @ ps))"

definition addgroup :: "nat \<Rightarrow> exn + piece list \<Rightarrow> exn + piece list" where
  "addgroup index rest =
     (if index > pattern_groups then Inl TemplateError
      else (case rest of Inl e \<Rightarrow> Inl e | Inr ps \<Rightarrow> Inr (Group index # ps)))"

lemma getuntil_shorter: "getuntil t s = Some (name, r) \<Longrightarrow> length r < length s"
  by (induction s arbitrary: name) (auto split: if_splits option.splits)

function parse_template :: "pystr \<Rightarrow> exn + piece list" where
  "parse_template [] = Inr []"
| "parse_template (c # cs) =
     (if c \<noteq> BACKSLASH then addliteral [c] (parse_template cs)
      else (case cs of
        [] \<Rightarrow> Inl TemplateError
      | d # ds \<Rightarrow>
          if d = 103 then
            (case ds of
               [] \<Rightarrow> Inl TemplateError
             | e # es \<Rightarrow>
                 if e \<noteq> 60 then Inl TemplateError
                 else (case getuntil 62 es of
                     None \<Rightarrow> Inl TemplateError
                   | Some (name, r) \<Rightarrow>
                       if name = [] \<or> \<not> list_all isdigit name then Inl TemplateError
                       else addgroup (int_of_digits name) (parse_template r)))
          else if d = 48 then
            (case ds of
               [] \<Rightarrow> addliteral [0] (parse_template ds)
             | e # es \<Rightarrow>
                 if isoctdigit e then
                   (case es of
                      [] \<Rightarrow> addliteral [digit e] (parse_template es)
                    | f # fs \<Rightarrow>
                        if isoctdigit f
                        then addliteral [(digit e * 8 + digit f) mod 256] (parse_template fs)
                        else addliteral [digit e] (parse_template es))
                 else addliteral [0] (parse_template ds))
          else if isdigit d then
            (case ds of
               [] \<Rightarrow> addgroup (digit d) (parse_template ds)
             | e # es \<Rightarrow>
                 if isdigit e then
                   (case es of
                      [] \<Rightarrow> addgroup (digit d * 10 + digit e) (parse_template es)
                    | f # fs \<Rightarrow>
                        if isoctdigit d \<and> isoctdigit e \<and> isoctdigit f then
                          (if digit d * 64 + digit e * 8 + digit f > 255 then Inl TemplateError
                           else addliteral [digit d * 64 + digit e * 8 + digit f]
                                  (parse_template fs))
                        else addgroup (digit d * 10 + digit e) (parse_template es))
                 else addgroup (digit d) (parse_template ds))
          else (case escapes d of
              Some v \<Rightarrow> addliteral [v] (parse_template ds)
            | None \<Rightarrow>
                if isasciiletter d then Inl TemplateError
                else addliteral [BACKSLASH, d] (parse_template ds))))"
  by pat_completeness auto
termination
  by (relation "measure length") (auto dest: getuntil_shorter)

text \<open>\<open>match.expand\<close>: group 0 is the whole match.\<close>

definition group :: "re_match \<Rightarrow> nat \<Rightarrow> pystr" where
  "group m i =
     (if i = 0 then g1 m @ g2 m @ g3 m else if i = 1 then g1 m
      else if i = 2 then g2 m else g3 m)"

fun expand :: "piece list \<Rightarrow> re_match \<Rightarrow> pystr" where
  "expand [] m = []"
| "expand (Lit c # ps) m = c # expand ps m"
| "expand (Group i # ps) m = group m i @ expand ps m"

text \<open>
  \<open>re.sub\<close> replaces every non-overlapping match, left to right; the search goes on in
  the text after the previous match. The pattern looks neither behind nor ahead and
  matches no empty text, so searching the rest is searching on from the end of the match.
\<close>

lemma literal_length: "literal p s = Some r \<Longrightarrow> length s = length p + length r"
  by (induction p s rule: literal.induct) (auto split: if_splits)

lemma lazy_body_length: "lazy_body s = Some (b, r) \<Longrightarrow> length r < length s"
proof (induction s arbitrary: b)
  case Nil
  then show ?case by simp
next
  case (Cons c cs)
  show ?case
  proof (cases "literal (py ''];'') (c # cs)")
    case None
    with Cons show ?thesis by (auto split: option.splits)
  next
    case (Some r')
    with Cons.prems have "r = r'" by simp
    with Some literal_length [of "py ''];''" "c # cs" r'] show ?thesis by (simp add: py_def)
  qed
qed

lemma spaces0_length: "spaces0 s = Some r \<Longrightarrow> length r \<le> length s"
  by (auto simp: spaces0_def length_dropWhile_le)

lemma spaces1_length: "spaces1 s = Some r \<Longrightarrow> length r < length s"
  by (auto simp: spaces1_def split: list.splits if_splits dest!: spaces0_length)

lemma group1_length: "group1 s = Some (opening, r) \<Longrightarrow> length r < length s"
  unfolding group1_def
  by (auto split: option.splits dest!: literal_length spaces0_length spaces1_length)

lemma match_here_post: "match_here s = Some m \<Longrightarrow> length (post m) < length s"
  unfolding match_here_def
  by (auto split: option.splits dest!: group1_length lazy_body_length)

lemma re_search_post: "re_search s = Some m \<Longrightarrow> length (post m) < length s"
proof (induction s arbitrary: m)
  case Nil
  then show ?case by (auto dest: match_here_post)
next
  case (Cons c cs)
  show ?case
  proof (cases "match_here (c # cs)")
    case None
    with Cons.prems obtain m' where "re_search cs = Some m'" "m = m'\<lparr>pre := c # pre m'\<rparr>"
      by (auto split: option.splits)
    with Cons.IH [of m'] show ?thesis by simp
  next
    case (Some m')
    with Cons.prems have "m = m'" by simp
    with Some show ?thesis by (auto dest: match_here_post)
  qed
qed

function sub_template :: "piece list \<Rightarrow> pystr \<Rightarrow> pystr" where
  "sub_template tmpl s =
     (case re_search s of
        None \<Rightarrow> s
      | Some m \<Rightarrow> pre m @ expand tmpl m @ sub_template tmpl (post m))"
  by pat_completeness auto
termination
  by (relation "measure (\<lambda>(tmpl, s). length s)") (auto dest: re_search_post)

definition re_sub :: "pystr \<Rightarrow> pystr \<Rightarrow> exn + pystr" where
  "re_sub repl s =
     (case parse_template repl of
        Inl e \<Rightarrow> Inl e
      | Inr tmpl \<Rightarrow> Inr (sub_template tmpl s))"

section \<open>The world the scripts run in\<close>

text \<open>
  The scripts read and write files, print lines and run shell commands. The world holds
  the regular files (a path that is no key does not exist), the lines printed so far and
  the shell commands run so far. A file is kept as the text its bytes decode to as UTF-8,
  or as its bytes when they are no UTF-8 (an image, say); UTF-8 encodes no surrogate code
  point, so a text that a file really holds has none, and the statements below say so
  where they depend on it. Each \<open>print\<close> of the source is
  one constructor of \<open>message\<close>, with the values its f-string interpolates.
\<close>

datatype file_data = Text pystr | Bytes "nat list"

datatype message =
    MsgHtmlNotFound pystr
  | MsgPatternNotFound
  | MsgError pystr
  | MsgDetails pystr
  | MsgPublishing
  | MsgAddingFiles
  | MsgCommitting
  | MsgNoChanges
  | MsgPushing
  | MsgPublished
  | MsgSiteWillUpdate
  | MsgNotPushed
  | MsgPushManually
  | MsgUsage
  | MsgExample
  | MsgExample1
  | MsgExample2
  | MsgImageNotFound pystr
  | MsgCopied pystr pystr
  | MsgCopyError
  | MsgAdded pystr
  | MsgUpdateFailed

record world =
  files :: "pystr \<rightharpoonup> file_data"
  stdout :: "message list"
  commands :: "pystr list"

text \<open>
  What the operating system answers is not decided by the scripts. A shell command run by
  \<open>subprocess.run(..., check=True, capture_output=True, text=True)\<close> exits with status
  zero (the result carries its standard output), exits with another status (the
  \<open>CalledProcessError\<close> carries its standard error), or prints bytes that do not decode
  as text, and then \<open>subprocess.run\<close> raises \<open>UnicodeDecodeError\<close> whatever the exit status.
  \<open>os.makedirs\<close> and \<open>shutil.copy2\<close> may raise.
\<close>

datatype run_result = Completed pystr | CalledProcessError pystr | UndecodableOutput

record environment =
  shell :: "pystr \<Rightarrow> run_result"
  makedirs_raises :: "pystr \<Rightarrow> bool"
  copy2_raises :: "pystr \<Rightarrow> pystr \<Rightarrow> bool"

definition print :: "message \<Rightarrow> world \<Rightarrow> world" where
  "print msg w = w\<lparr>stdout := stdout w @ [msg]\<rparr>"

definition exists :: "world \<Rightarrow> pystr \<Rightarrow> bool" where
  "exists w path \<longleftrightarrow> files w path \<noteq> None"

text \<open>
  Reading in text mode (\<open>open(html_file, 'r', encoding='utf-8')\<close>, universal newlines):
  every CR LF and every other CR of the file is read as LF.
\<close>

fun universal_newlines :: "pystr \<Rightarrow> pystr" where
  "universal_newlines (c # d # cs) =
     (if c = 13 \<and> d = 10 then NEWLINE # universal_newlines cs
      else if c = 13 then NEWLINE # universal_newlines (d # cs)
      else c # universal_newlines (d # cs))"
| "universal_newlines [c] = (if c = 13 then [NEWLINE] else [c])"
| "universal_newlines [] = []"

text \<open>
  Writing in text mode (\<open>open(html_file, 'w', encoding='utf-8')\<close>): opening truncates the
  file; \<open>write\<close> encodes the whole text first and raises \<open>UnicodeEncodeError\<close> when it
  holds a surrogate code point, which leaves the file empty. On a POSIX system (the path
  functions below are the POSIX ones) a newline is written as it is.
\<close>

definition surrogate :: "nat \<Rightarrow> bool" where
  "surrogate c \<longleftrightarrow> 55296 \<le> c \<and> c \<le> 57343"

definition encodable :: "pystr \<Rightarrow> bool" where
  "encodable t = list_all (\<lambda>c. \<not> surrogate c) t"

definition quoted :: "pystr \<Rightarrow> pystr" where
  "quoted image_filename = [DQUOTE] @ image_filename @ [DQUOTE]"

definition indent :: pystr where
  "indent = py ''      ''"

section \<open>add_image.py\<close>

text \<open>
  \<open>add_image_to_html\<close>. The result is \<open>Inr\<close> the returned boolean, or \<open>Inl\<close> the exception
  that leaves the function: from \<open>f.read()\<close> when the file is no UTF-8, from \<open>re.sub\<close>
  (nothing is written then: the file is opened for writing only after \<open>re.sub\<close> has
  returned) or from \<open>f.write\<close>.
\<close>

definition add_image_to_html :: "pystr \<Rightarrow> pystr \<Rightarrow> world \<Rightarrow> (exn + bool) \<times> world" where
  "add_image_to_html image_filename html_file w =
     (case files w html_file of
        None \<Rightarrow> (Inr False, print (MsgHtmlNotFound html_file) w)
      | Some (Bytes b) \<Rightarrow> (Inl UnicodeDecodeError, w)
      | Some (Text stored) \<Rightarrow>
          let content = universal_newlines stored in
          (case re_search content of
             None \<Rightarrow> (Inr False, print MsgPatternNotFound w)
           | Some match \<Rightarrow>
               let array_content = strip (g2 match);
                   new_array_content =
                     (if array_content \<noteq> [] \<and> \<not> endswith array_content [COMMA] then
                        (if strip array_content \<noteq> []
                         then array_content @ [COMMA, NEWLINE] @ indent @ quoted image_filename
                         else [NEWLINE] @ indent @ quoted image_filename @ [NEWLINE] @ indent)
                      else
                        (if array_content \<noteq> []
                         then array_content @ [NEWLINE] @ indent @ quoted image_filename
                         else [NEWLINE] @ indent @ quoted image_filename @ [NEWLINE] @ indent))
               in (case re_sub ([BACKSLASH, 49] @ new_array_content @ [BACKSLASH, 51]) content of
                     Inl e \<Rightarrow> (Inl e, w)
                   | Inr new_content \<Rightarrow>
                       if encodable new_content
                       then (Inr True, w\<lparr>files := (files w)(html_file \<mapsto> Text new_content)\<rparr>)
                       else (Inl UnicodeEncodeError,
                             w\<lparr>files := (files w)(html_file \<mapsto> Text [])\<rparr>))))"

text \<open>
  \<open>run_git_command\<close>: success and the standard output, or failure and the standard error
  after the two error lines; \<open>UnicodeDecodeError\<close> is not caught.
\<close>

definition run_git_command ::
  "environment \<Rightarrow> pystr \<Rightarrow> pystr \<Rightarrow> world \<Rightarrow> (exn + bool \<times> pystr) \<times> world" where
  "run_git_command env command error_message w =
     (let w' = w\<lparr>commands := commands w @ [command]\<rparr>
      in case shell env command of
           Completed out \<Rightarrow> (Inr (True, out), w')
         | CalledProcessError err \<Rightarrow>
             (Inr (False, err), print (MsgDetails err) (print (MsgError error_message) w'))
         | UndecodableOutput \<Rightarrow> (Inl UnicodeDecodeError, w'))"

definition check_git_repo :: "environment \<Rightarrow> world \<Rightarrow> (exn + bool) \<times> world" where
  "check_git_repo env w =
     (case run_git_command env (py ''git rev-parse --git-dir'')
             (py ''Not a git repository. Please initialize git first with ''
                @ [39] @ py ''git init'' @ [39]) w of
        (Inl e, w') \<Rightarrow> (Inl e, w')
      | (Inr (success, _), w') \<Rightarrow> (Inr success, w'))"

definition commit_and_push_changes ::
  "environment \<Rightarrow> pystr \<Rightarrow> pystr option \<Rightarrow> world \<Rightarrow> (exn + bool) \<times> world" where
  "commit_and_push_changes env image_filename commit_message0 w0 =
     (case check_git_repo env w0 of
        (Inl e, w1) \<Rightarrow> (Inl e, w1)
      | (Inr in_repo, w1) \<Rightarrow>
          if \<not> in_repo then (Inr False, w1)
          else
            let commit_message =
                  (if commit_message0 = None \<or> commit_message0 = Some []
                   then py ''Add image: '' @ image_filename else the commit_message0);
                w2 = print MsgAddingFiles (print MsgPublishing w1)
            in (case run_git_command env
                      (py ''git add images/'' @ image_filename @ py '' index.html'')
                      (py ''Failed to add files to git'') w2 of
                  (Inl e, w3) \<Rightarrow> (Inl e, w3)
                | (Inr (success, _), w3) \<Rightarrow>
                    if \<not> success then (Inr False, w3)
                    else
                      (case run_git_command env (py ''git commit -m '' @ quoted commit_message)
                              (py ''Failed to commit changes'') (print MsgCommitting w3) of
                         (Inl e, w5) \<Rightarrow> (Inl e, w5)
                       | (Inr (success, _), w5) \<Rightarrow>
                           if \<not> success then
                             (case run_git_command env (py ''git status --porcelain'') [] w5 of
                                (Inl e, w6) \<Rightarrow> (Inl e, w6)
                              | (Inr (success, output), w6) \<Rightarrow>
                                  (Inr False,
                                   if strip output = [] then print MsgNoChanges w6 else w6))
                           else
                             (case run_git_command env (py ''git push'')
                                     (py ''Failed to push to GitHub. Make sure you have a remote repository set up.'')
                                     (print MsgPushing w5) of
                                (Inl e, w7) \<Rightarrow> (Inl e, w7)
                              | (Inr (success, _), w7) \<Rightarrow>
                                  if success
                                  then (Inr True, print MsgSiteWillUpdate (print MsgPublished w7))
                                  else (Inr False, print MsgPushManually (print MsgNotPushed w7))))))"

text \<open>\<open>os.path.basename\<close> and \<open>os.path.join\<close> (POSIX paths; the separator is code point 47).\<close>

definition basename :: "pystr \<Rightarrow> pystr" where
  "basename path = rev (takeWhile (\<lambda>c. c \<noteq> 47) (rev path))"

definition path_join :: "pystr \<Rightarrow> pystr \<Rightarrow> pystr" where
  "path_join a b =
     (if b \<noteq> [] \<and> hd b = 47 then b
      else if a = [] \<or> last a = 47 then a @ b
      else a @ [47] @ b)"

text \<open>
  \<open>main\<close>, given \<open>sys.argv\<close>: the exit status of the process and the world it leaves.
  \<open>sys.exit(1)\<close> ends the process with status 1, and so does an exception nobody catches
  (from \<open>os.makedirs\<close>, from \<open>add_image_to_html\<close> or from \<open>commit_and_push_changes\<close>);
  returning from \<open>main\<close> ends it with status 0.
\<close>

definition main :: "environment \<Rightarrow> pystr list \<Rightarrow> world \<Rightarrow> nat \<times> world" where
  "main env argv w =
     (if length argv < 2 then
        (1, print MsgExample2 (print MsgExample1 (print MsgExample (print MsgUsage w))))
      else
        let image_path = argv ! 1;
            commit_message = (if length argv > 2 then Some (argv ! 2) else None)
        in if \<not> exists w image_path then (1, print (MsgImageNotFound image_path) w)
           else
             let images_folder = py ''images'' in
             if makedirs_raises env images_folder then (1, w)
             else
               let image_filename = basename image_path;
                   destination = path_join images_folder image_filename
               in if copy2_raises env image_path destination then (1, print MsgCopyError w)
                  else
                    let w1 = print (MsgCopied image_filename images_folder)
                               (w\<lparr>files := (files w)(destination \<mapsto> the (files w image_path))\<rparr>)
                    in (case add_image_to_html image_filename (py ''index.html'') w1 of
                          (Inl e, w2) \<Rightarrow> (1, w2)
                        | (Inr True, w2) \<Rightarrow>
                            (case commit_and_push_changes env image_filename commit_message
                                    (print (MsgAdded image_filename) w2) of
                               (Inl e, w4) \<Rightarrow> (1, w4)
                             | (Inr published, w4) \<Rightarrow> (0, w4))
                        | (Inr False, w2) \<Rightarrow> (1, print MsgUpdateFailed w2)))"

section \<open>update.py\<close>

text \<open>The second script has its own copy of \<open>add_image_to_html\<close>.\<close>

definition update_add_image_to_html ::
  "pystr \<Rightarrow> pystr \<Rightarrow> world \<Rightarrow> (exn + bool) \<times> world" where
  "update_add_image_to_html image_filename html_file w =
     (case files w html_file of
        None \<Rightarrow> (Inr False, print (MsgHtmlNotFound html_file) w)
      | Some (Bytes b) \<Rightarrow> (Inl UnicodeDecodeError, w)
      | Some (Text stored) \<Rightarrow>
          let content = universal_newlines stored in
          (case re_search content of
             None \<Rightarrow> (Inr False, print MsgPatternNotFound w)
           | Some match \<Rightarrow>
               let array_content = strip (g2 match);
                   new_array_content =
                     (if array_content \<noteq> [] \<and> \<not> endswith array_content [COMMA] then
                        (if strip array_content \<noteq> []
                         then array_content @ [COMMA, NEWLINE] @ indent @ quoted image_filename
                         else [NEWLINE] @ indent @ quoted image_filename @ [NEWLINE] @ indent)
                      else
                        (if array_content \<noteq> []
                         then array_content @ [NEWLINE] @ indent @ quoted image_filename
                         else [NEWLINE] @ indent @ quoted image_filename @ [NEWLINE] @ indent))
               in (case re_sub ([BACKSLASH, 49] @ new_array_content @ [BACKSLASH, 51]) content of
                     Inl e \<Rightarrow> (Inl e, w)
                   | Inr new_content \<Rightarrow>
                       if encodable new_content
                       then (Inr True, w\<lparr>files := (files w)(html_file \<mapsto> Text new_content)\<rparr>)
                       else (Inl UnicodeEncodeError,
                             w\<lparr>files := (files w)(html_file \<mapsto> Text [])\<rparr>))))"

section \<open>Notions for the statements\<close>

text \<open>The texts group 1 can be.\<close>

definition is_opening :: "pystr \<Rightarrow> bool" where
  "is_opening t \<longleftrightarrow> (\<exists>w1 w2 w3. t = py ''const'' @ w1 @ py ''images'' @ w2 @ [61] @ w3 @ [91] \<and>
      w1 \<noteq> [] \<and> list_all isspace w1 \<and> list_all isspace w2 \<and> list_all isspace w3)"

text \<open>The closing \<open>];\<close> occurs somewhere in a text.\<close>

fun has_close :: "pystr \<Rightarrow> bool" where
  "has_close (a # b # r) = ((a = 93 \<and> b = 59) \<or> has_close (b # r))"
| "has_close _ = False"

text \<open>No match starts inside the prefix \<open>p\<close> of the text \<open>p @ s\<close>.\<close>

fun unmatched :: "pystr \<Rightarrow> pystr \<Rightarrow> bool" where
  "unmatched [] s = True"
| "unmatched (c # p) s = (match_here (c # p @ s) = None \<and> unmatched p s)"

text \<open>
  The value the source gives \<open>new_array_content\<close> (lines 40 to 51 of add_image.py), as a
  function of \<open>array_content\<close> and \<open>image_filename\<close>.
\<close>

definition new_array_content :: "pystr \<Rightarrow> pystr \<Rightarrow> pystr" where
  "new_array_content array_content image_filename =
     (if array_content \<noteq> [] \<and> \<not> endswith array_content [COMMA] then
        (if strip array_content \<noteq> []
         then array_content @ [COMMA, NEWLINE] @ indent @ quoted image_filename
         else [NEWLINE] @ indent @ quoted image_filename @ [NEWLINE] @ indent)
      else
        (if array_content \<noteq> []
         then array_content @ [NEWLINE] @ indent @ quoted image_filename
         else [NEWLINE] @ indent @ quoted image_filename @ [NEWLINE] @ indent))"

text \<open>
  The successive matches that \<open>re.sub\<close> replaces (those of \<open>re.finditer\<close>), and the text
  that follows the last of them.
\<close>

function finditer :: "pystr \<Rightarrow> re_match list" where
  "finditer s = (case re_search s of None \<Rightarrow> [] | Some m \<Rightarrow> m # finditer (post m))"
  by pat_completeness auto

termination
  by (relation "measure length") (auto dest: re_search_post)

function remainder :: "pystr \<Rightarrow> pystr" where
  "remainder s = (case re_search s of None \<Rightarrow> s | Some m \<Rightarrow> remainder (post m))"
  by pat_completeness auto

termination
  by (relation "measure length") (auto dest: re_search_post)

text \<open>
  The template \<open>\1{new_array_content}\3\<close> is read as it is written when the stripped body
  and the file name hold no backslash and the body does not begin with a digit.
\<close>

definition plain :: "pystr \<Rightarrow> pystr \<Rightarrow> bool" where
  "plain array_content image_filename \<longleftrightarrow>
     BACKSLASH \<notin> set array_content \<and> BACKSLASH \<notin> set image_filename \<and>
     (array_content = [] \<or> \<not> isdigit (hd array_content))"

text \<open>Two commas in a row somewhere in a text.\<close>

fun double_comma :: "pystr \<Rightarrow> bool" where
  "double_comma (a # b # r) = ((a = COMMA \<and> b = COMMA) \<or> double_comma (b # r))"
| "double_comma _ = False"

text \<open>
  Concrete documents for the examples: a script element around a declaration, as the only
  file \<open>index.html\<close> of a world that has printed and run nothing yet.
\<close>

definition page :: "pystr \<Rightarrow> pystr" where
  "page declaration = py ''<script>'' @ declaration @ py ''</script>''"

definition site :: "pystr \<Rightarrow> world" where
  "site content = \<lparr>files = [py ''index.html'' \<mapsto> Text content], stdout = [], commands = []\<rparr>"

definition one_entry :: pystr where
  "one_entry = py ''const images = ['' @ [NEWLINE] @ indent @ quoted (py ''a.jpg'') @ [NEWLINE] @ py ''    ];''"

definition comma_entry :: pystr where
  "comma_entry = py ''const images = ['' @ quoted (py ''a.jpg'') @ py '',];''"

definition empty_list :: pystr where
  "empty_list = py ''const images = [];''"

definition two_lists :: pystr where
  "two_lists = py ''const images = ['' @ quoted (py ''a'') @ py ''];const images = ['' @ quoted (py ''b'') @ py ''];''"

text \<open>Worlds and environments for the examples; the image is a file that is no UTF-8.\<close>

definition gallery :: world where
  "gallery = \<lparr>files = [py ''photo.jpg'' \<mapsto> Bytes [255, 216, 255, 224],
                        py ''index.html'' \<mapsto> Text (page empty_list)],
               stdout = [], commands = []\<rparr>"

definition no_page :: world where
  "no_page = \<lparr>files = [py ''photo.jpg'' \<mapsto> Bytes [255, 216, 255, 224]], stdout = [], commands = []\<rparr>"

definition broken_git :: environment where
  "broken_git = \<lparr>shell = (\<lambda>command. CalledProcessError (py ''fatal'')),
                  makedirs_raises = (\<lambda>path. False), copy2_raises = (\<lambda>src dst. False)\<rparr>"

definition garbled_push :: environment where
  "garbled_push =
     \<lparr>shell = (\<lambda>command. if command = py ''git push'' then UndecodableOutput else Completed []),
        makedirs_raises = (\<lambda>path. False), copy2_raises = (\<lambda>src dst. False)\<rparr>"

definition nothing_to_commit :: environment where
  "nothing_to_commit =
     \<lparr>shell = (\<lambda>command.
          if command = py ''git commit -m '' @ quoted (py ''Add image: a.jpg'')
          then CalledProcessError (py ''nothing to commit'') else Completed []),
        makedirs_raises = (\<lambda>path. False), copy2_raises = (\<lambda>src dst. False)\<rparr>"

definition pending_changes :: environment where
  "pending_changes =
     \<lparr>shell = (\<lambda>command.
          if command = py ''git commit -m '' @ quoted (py ''Add image: a.jpg'')
          then CalledProcessError (py ''rejected'')
          else if command = py ''git status --porcelain'' then Completed (py '' M index.html'')
          else Completed []),
        makedirs_raises = (\<lambda>path. False), copy2_raises = (\<lambda>src dst. False)\<rparr>"

definition status_fails :: environment where
  "status_fails =
     \<lparr>shell = (\<lambda>command.
          if command = py ''git commit -m '' @ quoted (py ''Add image: a.jpg'')
          then CalledProcessError (py ''rejected'')
          else if command = py ''git status --porcelain'' then CalledProcessError (py ''index locked'')
          else Completed []),
        makedirs_raises = (\<lambda>path. False), copy2_raises = (\<lambda>src dst. False)\<rparr>"

definition status_garbled :: environment where
  "status_garbled =
     \<lparr>shell = (\<lambda>command.
          if command = py ''git commit -m '' @ quoted (py ''Add image: a.jpg'')
          then CalledProcessError (py ''rejected'')
          else if command = py ''git status --porcelain'' then UndecodableOutput
          else Completed []),
        makedirs_raises = (\<lambda>path. False), copy2_raises = (\<lambda>src dst. False)\<rparr>"

section \<open>Facts about the model\<close>

lemma py_Nil: "py [] = []" by (simp add: py_def)

lemma py_Cons: "py (c # cs) = of_char c # py cs" by (simp add: py_def)

lemmas py_simps = py_Nil py_Cons

lemma literal_iff: "literal p s = Some r \<longleftrightarrow> s = p @ r"
  by (induction p s rule: literal.induct) auto

lemma literal_append: "literal p (p @ r) = Some r"
  by (simp add: literal_iff)

lemma dropWhile_spaces: "list_all isspace ws \<Longrightarrow> \<not> isspace x \<Longrightarrow> dropWhile isspace (ws @ x # r) = x # r"
  by (induction ws) auto

lemma takeWhile_all: "list_all P (takeWhile P xs)"
  by (induction xs) auto

lemma group1_sound:
  assumes "group1 s = Some (t, r)"
  shows "s = t @ r \<and> is_opening t"
proof -
  from assms obtain r1 r2 r3 r4 r5 r6 where
    1: "literal (py ''const'') s = Some r1" and 2: "spaces1 r1 = Some r2" and
    3: "literal (py ''images'') r2 = Some r3" and 4: "spaces0 r3 = Some r4" and
    5: "literal (py ''='') r4 = Some r5" and 6: "spaces0 r5 = Some r6" and
    7: "literal (py ''['') r6 = Some r" and t: "t = take (length s - length r) s"
    unfolding group1_def by (auto split: option.splits)
  define w1 where "w1 = takeWhile isspace r1"
  define w2 where "w2 = takeWhile isspace r3"
  define w3 where "w3 = takeWhile isspace r5"
  from 2 have w1: "w1 \<noteq> []" "r1 = w1 @ r2"
    by (auto simp: spaces1_def spaces0_def w1_def split: list.splits if_splits)
  from 4 have w2: "r3 = w2 @ r4" by (auto simp: spaces0_def w2_def)
  from 6 have w3: "r5 = w3 @ r6" by (auto simp: spaces0_def w3_def)
  from 1 3 5 7 w1 w2 w3 have s: "s = (py ''const'' @ w1 @ py ''images'' @ w2 @ [61] @ w3 @ [91]) @ r"
    by (simp add: literal_iff py_simps)
  with t have "t = py ''const'' @ w1 @ py ''images'' @ w2 @ [61] @ w3 @ [91]"
    by simp
  moreover have "list_all isspace w1" "list_all isspace w2" "list_all isspace w3"
    by (simp_all add: w1_def w2_def w3_def takeWhile_all)
  ultimately show ?thesis using s w1(1) unfolding is_opening_def by blast
qed

lemma group1_complete:
  assumes "is_opening t"
  shows "group1 (t @ r) = Some (t, r)"
proof -
  from assms obtain w1 w2 w3 where
    t: "t = py ''const'' @ w1 @ py ''images'' @ w2 @ [61] @ w3 @ [91]" and
    w: "w1 \<noteq> []" "list_all isspace w1" "list_all isspace w2" "list_all isspace w3"
    unfolding is_opening_def by blast
  obtain x xs where w1: "w1 = x # xs" using w(1) by (cases w1) auto
  have ns: "\<not> isspace 105" "\<not> isspace 61" "\<not> isspace 91" by (simp_all add: isspace_def)
  have a: "literal (py ''const'') (t @ r) = Some (w1 @ py ''images'' @ w2 @ [61] @ w3 @ [91] @ r)"
    unfolding t by (simp add: literal_iff)
  have b: "spaces1 (w1 @ py ''images'' @ w2 @ [61] @ w3 @ [91] @ r) = Some (py ''images'' @ w2 @ [61] @ w3 @ [91] @ r)"
    using w(2) ns(1) dropWhile_spaces [of xs 105] unfolding w1 by (simp add: spaces1_def spaces0_def py_simps)
  have c: "literal (py ''images'') (py ''images'' @ w2 @ [61] @ w3 @ [91] @ r) = Some (w2 @ [61] @ w3 @ [91] @ r)"
    by (simp add: literal_iff)
  have d: "spaces0 (w2 @ [61] @ w3 @ [91] @ r) = Some ([61] @ w3 @ [91] @ r)"
    using w(3) ns(2) dropWhile_spaces [of w2 61] by (simp add: spaces0_def)
  have e: "literal (py ''='') ([61] @ w3 @ [91] @ r) = Some (w3 @ [91] @ r)"
    by (simp add: literal_iff py_simps)
  have f: "spaces0 (w3 @ [91] @ r) = Some ([91] @ r)"
    using w(4) ns(3) dropWhile_spaces [of w3 91] by (simp add: spaces0_def)
  have g: "literal (py ''['') ([91] @ r) = Some r"
    by (simp add: literal_iff py_simps)
  have "take (length (t @ r) - length r) (t @ r) = t" by simp
  with a b c d e f g show ?thesis unfolding group1_def by simp
qed

lemma spaces_notin: "list_all isspace ws \<Longrightarrow> \<not> isspace c \<Longrightarrow> c \<notin> set ws"
  by (auto simp: list_all_iff)

lemma opening_head:
  assumes "is_opening t"
  shows "\<exists>t'. t = 99 # t' \<and> 99 \<notin> set t'"
proof -
  from assms obtain w1 w2 w3 where
    t: "t = py ''const'' @ w1 @ py ''images'' @ w2 @ [61] @ w3 @ [91]" and
    w: "list_all isspace w1" "list_all isspace w2" "list_all isspace w3"
    unfolding is_opening_def by blast
  have "\<not> isspace 99" by (simp add: isspace_def)
  with w have "99 \<notin> set w1" "99 \<notin> set w2" "99 \<notin> set w3"
    by (simp_all add: spaces_notin)
  then show ?thesis unfolding t by (simp add: py_simps)
qed

lemma append_eq_cases:
  "u @ v = t @ r \<Longrightarrow> (\<exists>us. u = t @ us \<and> r = us @ v) \<or> (\<exists>us. us \<noteq> [] \<and> t = u @ us \<and> v = us @ r)"
proof (induction u arbitrary: t)
  case Nil
  then show ?case by (cases t) auto
next
  case (Cons a u)
  show ?case
  proof (cases t)
    case Nil
    with Cons.prems show ?thesis by auto
  next
    case (Cons b t')
    with Cons.prems have "a = b" "u @ v = t' @ r" by simp_all
    from Cons.IH [OF this(2)] show ?thesis using Cons \<open>a = b\<close> by auto
  qed
qed

lemma group1_local:
  assumes "group1 (u @ 99 # v) = Some (t, r)" and "u \<noteq> []"
  shows "\<exists>u'. u = t @ u' \<and> r = u' @ 99 # v"
proof -
  from group1_sound [OF assms(1)] have eq: "u @ 99 # v = t @ r" and op: "is_opening t" by simp_all
  from opening_head [OF op] obtain t' where t: "t = 99 # t'" "99 \<notin> set t'" by blast
  from append_eq_cases [OF eq] show ?thesis
  proof
    assume "\<exists>us. u = t @ us \<and> r = us @ 99 # v" then show ?thesis .
  next
    assume "\<exists>us. us \<noteq> [] \<and> t = u @ us \<and> 99 # v = us @ r"
    then obtain us where a: "us \<noteq> []" "t = u @ us" "99 # v = us @ r" by blast
    from a(1,3) obtain us' where "us = 99 # us'" by (cases us) auto
    moreover from assms(2) obtain x u2 where "u = x # u2" by (cases u) auto
    ultimately have "99 \<in> set t'" using a(2) t(1) by auto
    with t(2) show ?thesis by simp
  qed
qed

lemma literal_close: "literal (py ''];'') s = Some r \<longleftrightarrow> s = 93 # 59 # r"
  by (simp add: literal_iff py_simps)

lemma lazy_body_sound: "lazy_body s = Some (b, r) \<Longrightarrow> s = b @ 93 # 59 # r"
proof (induction s arbitrary: b)
  case Nil
  then show ?case by simp
next
  case (Cons c cs)
  show ?case
  proof (cases "literal (py ''];'') (c # cs)")
    case None
    with Cons.prems obtain b' where "lazy_body cs = Some (b', r)" "b = c # b'"
      by (auto split: option.splits)
    with Cons.IH [of b'] show ?thesis by simp
  next
    case (Some r')
    with Cons.prems have "b = []" "r = r'" by simp_all
    with Some show ?thesis by (simp add: literal_close)
  qed
qed

lemma lazy_body_first: "\<not> has_close b \<Longrightarrow> lazy_body (b @ 93 # 59 # r) = Some (b, r)"
proof (induction b)
  case Nil
  have "literal (py ''];'') (93 # 59 # r) = Some r" by (simp add: literal_close)
  then show ?case by simp
next
  case (Cons a b)
  have nc: "\<not> has_close b" using Cons.prems by (cases b) auto
  have "literal (py ''];'') (a # b @ 93 # 59 # r) = None"
  proof (cases b)
    case Nil
    have "literal (py ''];'') (a # 93 # 59 # r) \<noteq> Some x" for x by (simp add: literal_close)
    then show ?thesis using Nil by (cases "literal (py ''];'') (a # 93 # 59 # r)") auto
  next
    case (Cons b0 b')
    with Cons.prems have "\<not> (a = 93 \<and> b0 = 59)" by simp
    then have "literal (py ''];'') (a # b @ 93 # 59 # r) \<noteq> Some x" for x
      using Cons by (auto simp: literal_close)
    then show ?thesis by (cases "literal (py ''];'') (a # b @ 93 # 59 # r)") auto
  qed
  with Cons.IH [OF nc] show ?case by simp
qed

lemma lazy_body_exists: "lazy_body (x @ 93 # 59 # y) \<noteq> None"
proof (induction x)
  case Nil
  have "literal (py ''];'') (93 # 59 # y) = Some y" by (simp add: literal_close)
  then show ?case by simp
next
  case (Cons a x)
  then show ?case by (auto split: option.splits)
qed

lemma lazy_body_later: "lazy_body s \<noteq> None \<Longrightarrow> lazy_body (x @ s) \<noteq> None"
proof -
  assume "lazy_body s \<noteq> None"
  then obtain b r where "lazy_body s = Some (b, r)" by auto
  from lazy_body_sound [OF this] have "x @ s = (x @ b) @ 93 # 59 # r" by simp
  then show ?thesis using lazy_body_exists [of "x @ b" r] by simp
qed

lemma has_close_append:
  "has_close (a @ b) \<longleftrightarrow>
     has_close a \<or> has_close b \<or> (a \<noteq> [] \<and> b \<noteq> [] \<and> last a = 93 \<and> hd b = 59)"
proof (induction a)
  case Nil
  then show ?case by simp
next
  case (Cons x a)
  show ?case
  proof (cases a)
    case Nil
    then show ?thesis by (cases b) auto
  next
    case (Cons y a')
    with Cons.IH show ?thesis by auto
  qed
qed

lemma match_here_sound:
  assumes "match_here s = Some m"
  shows "pre m = [] \<and> s = g1 m @ g2 m @ g3 m @ post m \<and> g3 m = [93, 59] \<and> is_opening (g1 m) \<and>
         lazy_body (g2 m @ g3 m @ post m) = Some (g2 m, post m)"
proof -
  from assms obtain t r b r' where g: "group1 s = Some (t, r)" and l: "lazy_body r = Some (b, r')"
    and m: "m = \<lparr>pre = [], g1 = t, g2 = b, g3 = py ''];'', post = r'\<rparr>"
    unfolding match_here_def by (auto split: option.splits)
  from group1_sound [OF g] lazy_body_sound [OF l] l m show ?thesis by (simp add: py_simps)
qed

lemma match_here_intro:
  assumes "is_opening t" and "\<not> has_close b"
  shows "match_here (t @ b @ 93 # 59 # r) = Some \<lparr>pre = [], g1 = t, g2 = b, g3 = [93, 59], post = r\<rparr>"
  using group1_complete [OF assms(1), of "b @ 93 # 59 # r"] lazy_body_first [OF assms(2), of r]
  by (simp add: match_here_def py_simps)

lemma re_search_here: "match_here s = Some m \<Longrightarrow> re_search s = Some m"
  by (cases s) auto

lemma re_search_intro:
  "unmatched p s \<Longrightarrow> match_here s = Some m \<Longrightarrow> re_search (p @ s) = Some (m\<lparr>pre := p\<rparr>)"
proof (induction p)
  case Nil
  from match_here_sound [OF Nil(2)] have "pre m = []" by simp
  then have "m\<lparr>pre := []\<rparr> = m" by simp
  with re_search_here [OF Nil(2)] show ?case by simp
next
  case (Cons c p)
  then show ?case by simp
qed

lemma re_search_elim:
  "re_search s = Some m \<Longrightarrow>
     \<exists>rest. s = pre m @ rest \<and> unmatched (pre m) rest \<and> match_here rest = Some (m\<lparr>pre := []\<rparr>)"
proof (induction s arbitrary: m)
  case Nil
  then have mh: "match_here [] = Some m" by simp
  from match_here_sound [OF mh] have "pre m = []" by simp
  then have "m\<lparr>pre := []\<rparr> = m" by simp
  with mh \<open>pre m = []\<close> show ?case by simp
next
  case (Cons c cs)
  show ?case
  proof (cases "match_here (c # cs)")
    case None
    with Cons.prems obtain m' where m': "re_search cs = Some m'" "m = m'\<lparr>pre := c # pre m'\<rparr>"
      by (auto split: option.splits)
    from Cons.IH [OF m'(1)] obtain rest where
      r: "cs = pre m' @ rest" "unmatched (pre m') rest" "match_here rest = Some (m'\<lparr>pre := []\<rparr>)"
      by blast
    have "c # cs = pre m @ rest" using r(1) m'(2) by simp
    moreover have "unmatched (pre m) rest" using r(1,2) None m'(2) by simp
    moreover have "match_here rest = Some (m\<lparr>pre := []\<rparr>)" using r(3) m'(2) by simp
    ultimately show ?thesis by blast
  next
    case (Some m')
    with Cons.prems have mm: "m = m'" by simp
    from match_here_sound [OF Some] have "pre m' = []" by simp
    then have "m'\<lparr>pre := []\<rparr> = m'" by simp
    with Some mm \<open>pre m' = []\<close> show ?thesis by simp
  qed
qed

lemma unmatched_stable:
  assumes "unmatched p (t @ r)" and "is_opening t" and "lazy_body r \<noteq> None"
  shows "unmatched p (t @ r')"
  using assms(1)
proof (induction p)
  case Nil
  then show ?case by simp
next
  case (Cons c p)
  from opening_head [OF assms(2)] obtain t' where t: "t = 99 # t'" by blast
  have "match_here (c # p @ t @ r') = None"
  proof (rule ccontr)
    assume "match_here (c # p @ t @ r') \<noteq> None"
    then obtain t2 r2 where g: "group1 ((c # p) @ 99 # (t' @ r')) = Some (t2, r2)"
      unfolding match_here_def t by (auto split: option.splits)
    from group1_local [OF g] obtain u' where u: "c # p = t2 @ u'" by blast
    from group1_sound [OF g] have "is_opening t2" by simp
    from group1_complete [OF this, of "u' @ t @ r"] u
    have "group1 (c # p @ t @ r) = Some (t2, u' @ t @ r)"
      by (metis append.assoc append_Cons)
    moreover have "lazy_body (u' @ t @ r) \<noteq> None"
      using lazy_body_later [OF assms(3), of "u' @ t"] by simp
    ultimately have "match_here (c # p @ t @ r) \<noteq> None"
      unfolding match_here_def by (auto split: option.splits)
    with Cons.prems show False by simp
  qed
  with Cons show ?case by simp
qed

lemma re_search_replace:
  assumes "re_search doc = Some m" and "\<not> has_close b"
  shows "re_search (pre m @ g1 m @ b @ 93 # 59 # r) =
           Some \<lparr>pre = pre m, g1 = g1 m, g2 = b, g3 = [93, 59], post = r\<rparr>"
proof -
  from re_search_elim [OF assms(1)] obtain rest where
    r: "unmatched (pre m) rest" "match_here rest = Some (m\<lparr>pre := []\<rparr>)" by blast
  note ms = match_here_sound [OF r(2), simplified]
  from ms have
    rest: "rest = g1 m @ g2 m @ g3 m @ post m" and op: "is_opening (g1 m)" and
    lb0: "lazy_body (g2 m @ g3 m @ post m) = Some (g2 m, post m)" by blast+
  from lb0 have lb: "lazy_body (g2 m @ g3 m @ post m) \<noteq> None" by simp
  from r(1) have "unmatched (pre m) (g1 m @ g2 m @ g3 m @ post m)" unfolding rest .
  from unmatched_stable [OF this op lb]
  have "unmatched (pre m) (g1 m @ b @ 93 # 59 # r)" .
  from re_search_intro [OF this match_here_intro [OF op assms(2)]]
  show ?thesis by simp
qed

lemma re_search_sound:
  assumes "re_search doc = Some m"
  shows "doc = pre m @ g1 m @ g2 m @ g3 m @ post m \<and> g3 m = [93, 59]"
proof -
  from re_search_elim [OF assms(1)] obtain rest where
    r: "doc = pre m @ rest" "match_here rest = Some (m\<lparr>pre := []\<rparr>)" by blast
  from match_here_sound [OF r(2)] r(1) show ?thesis by simp
qed

declare sub_template.simps [simp del] finditer.simps [simp del] remainder.simps [simp del]

declare parse_template.simps [simp del]

lemma parse_plain: "BACKSLASH \<notin> set t \<Longrightarrow> parse_template (t @ [BACKSLASH, 51]) = Inr (map Lit t @ [Group 3])"
proof (induction t)
  case Nil
  show ?case
    by (simp add: parse_template.simps isdigit_def digit_def addgroup_def pattern_groups_def)
next
  case (Cons c t)
  then have "c \<noteq> BACKSLASH" "parse_template (t @ [BACKSLASH, 51]) = Inr (map Lit t @ [Group 3])"
    by simp_all
  then show ?case by (simp add: parse_template.simps(2) addliteral_def)
qed

lemma parse_group1:
  assumes "t \<noteq> []" and "\<not> isdigit (hd t)"
  shows "parse_template (BACKSLASH # 49 # t) = addgroup 1 (parse_template t)"
proof -
  from assms obtain e es where t: "t = e # es" "\<not> isdigit e" by (cases t) auto
  have "isdigit 49" "digit 49 = 1" by (simp_all add: isdigit_def digit_def)
  with t show ?thesis by (simp add: parse_template.simps(2))
qed

lemma template_plain:
  assumes "BACKSLASH \<notin> set nb" and "nb \<noteq> []" and "\<not> isdigit (hd nb)"
  shows "parse_template ([BACKSLASH, 49] @ nb @ [BACKSLASH, 51]) = Inr (Group 1 # map Lit nb @ [Group 3])"
proof -
  have "nb @ [BACKSLASH, 51] \<noteq> []" "\<not> isdigit (hd (nb @ [BACKSLASH, 51]))"
    using assms(2,3) by simp_all
  from parse_group1 [OF this] parse_plain [OF assms(1)]
  show ?thesis by (simp add: addgroup_def pattern_groups_def)
qed

lemma expand_Lits: "expand (map Lit t @ ps) m = t @ expand ps m"
  by (induction t) auto

lemma expand_plain: "expand (Group 1 # map Lit nb @ [Group 3]) m = g1 m @ nb @ g3 m"
  by (simp add: expand_Lits group_def)

lemma sub_template_None: "re_search s = None \<Longrightarrow> sub_template tmpl s = s"
  by (simp add: sub_template.simps)

lemma sub_template_Some:
  "re_search s = Some m \<Longrightarrow> sub_template tmpl s = pre m @ expand tmpl m @ sub_template tmpl (post m)"
  by (simp add: sub_template.simps)

lemma finditer_None: "re_search s = None \<Longrightarrow> finditer s = []"
  by (simp add: finditer.simps [of s])

lemma finditer_Some: "re_search s = Some m \<Longrightarrow> finditer s = m # finditer (post m)"
  by (simp add: finditer.simps [of s])

lemma remainder_None: "re_search s = None \<Longrightarrow> remainder s = s"
  by (simp add: remainder.simps [of s])

lemma remainder_Some: "re_search s = Some m \<Longrightarrow> remainder s = remainder (post m)"
  by (simp add: remainder.simps [of s])

lemma sub_template_plain:
  "sub_template (Group 1 # map Lit nb @ [Group 3]) s =
     concat (map (\<lambda>m. pre m @ g1 m @ nb @ g3 m) (finditer s)) @ remainder s"
proof (induction s rule: finditer.induct)
  case (1 s)
  let ?t = "Group 1 # map Lit nb @ [Group 3]"
  show ?case
  proof (cases "re_search s")
    case None
    then show ?thesis by (simp only: sub_template_None finditer_None remainder_None) simp
  next
    case (Some m)
    have "sub_template ?t s = pre m @ (g1 m @ nb @ g3 m) @ sub_template ?t (post m)"
      by (simp only: sub_template_Some [OF Some] expand_plain)
    also have "sub_template ?t (post m) =
        concat (map (\<lambda>m. pre m @ g1 m @ nb @ g3 m) (finditer (post m))) @ remainder (post m)"
      by (rule 1 [OF Some])
    finally show ?thesis
      by (simp only: finditer_Some [OF Some] remainder_Some [OF Some]) simp
  qed
qed

lemma finditer_decomposition:
  "concat (map (\<lambda>m. pre m @ g1 m @ g2 m @ g3 m) (finditer s)) @ remainder s = s"
proof (induction s rule: finditer.induct)
  case (1 s)
  show ?case
  proof (cases "re_search s")
    case None
    then show ?thesis by (simp only: finditer_None remainder_None) simp
  next
    case (Some m)
    from re_search_sound [OF Some] have eq: "pre m @ g1 m @ g2 m @ g3 m @ post m = s" by simp
    have "concat (map (\<lambda>m. pre m @ g1 m @ g2 m @ g3 m) (finditer s)) @ remainder s =
        pre m @ g1 m @ g2 m @ g3 m @
          (concat (map (\<lambda>m. pre m @ g1 m @ g2 m @ g3 m) (finditer (post m))) @ remainder (post m))"
      by (simp only: finditer_Some [OF Some] remainder_Some [OF Some]) simp
    also have "\<dots> = pre m @ g1 m @ g2 m @ g3 m @ post m"
      by (simp only: 1 [OF Some])
    finally show ?thesis using eq by simp
  qed
qed

lemma indent_simp: "indent = [32, 32, 32, 32, 32, 32]"
  by (simp add: indent_def py_simps)

subsection \<open>Reading and writing\<close>

lemma universal_newlines_members:
  "x \<in> set (universal_newlines t) \<Longrightarrow> x = NEWLINE \<or> (x \<in> set t \<and> x \<noteq> 13)"
  by (induction t rule: universal_newlines.induct) (auto split: if_splits)

lemma universal_newlines_no_cr: "13 \<notin> set (universal_newlines t)"
  using universal_newlines_members [of 13 t] by auto

lemma universal_newlines_id: "13 \<notin> set t \<Longrightarrow> universal_newlines t = t"
  by (induction t rule: universal_newlines.induct) auto

lemma encodable_iff: "encodable t \<longleftrightarrow> (\<forall>c\<in>set t. \<not> surrogate c)"
  by (simp add: encodable_def list_all_iff)

lemma encodable_read:
  assumes "encodable t"
  shows "encodable (universal_newlines t)"
  unfolding encodable_iff
proof
  fix c
  assume "c \<in> set (universal_newlines t)"
  from universal_newlines_members [OF this] have "c = NEWLINE \<or> c \<in> set t" by blast
  then show "\<not> surrogate c"
  proof
    assume "c = NEWLINE" then show ?thesis by (simp add: surrogate_def)
  next
    assume "c \<in> set t" with assms show ?thesis by (simp add: encodable_iff)
  qed
qed

lemma set_strip: "set (strip s) \<subseteq> set s"
  by (auto simp: strip_def dest!: set_dropWhileD)

lemma set_new_array_content:
  "set (new_array_content body f) \<subseteq> set body \<union> set f \<union> {COMMA, NEWLINE, 32, DQUOTE}"
  by (auto simp: new_array_content_def indent_simp quoted_def)

lemma set_sub_plain:
  "set (concat (map (\<lambda>k. pre k @ g1 k @ nb @ g3 k) (finditer s)) @ remainder s) \<subseteq> set s \<union> set nb"
proof (induction s rule: finditer.induct)
  case (1 s)
  show ?case
  proof (cases "re_search s")
    case None
    then show ?thesis by (simp add: finditer_None remainder_None)
  next
    case (Some m)
    from re_search_sound [OF Some] have eq: "s = pre m @ g1 m @ g2 m @ g3 m @ post m" by simp
    from arg_cong [OF eq, of set]
    have "set (pre m) \<union> set (g1 m) \<union> set (g3 m) \<union> set (post m) \<subseteq> set s"
      by auto
    with 1 [OF Some] show ?thesis
      by (auto simp: finditer_Some [OF Some] remainder_Some [OF Some])
  qed
qed

subsection \<open>The patch\<close>

lemma add_image_to_html_unfold:
  assumes "files w h = Some (Text stored)" and "re_search (universal_newlines stored) = Some m"
  shows "add_image_to_html f h w =
     (case re_sub ([BACKSLASH, 49] @ new_array_content (strip (g2 m)) f @ [BACKSLASH, 51])
             (universal_newlines stored) of
        Inl e \<Rightarrow> (Inl e, w)
      | Inr c \<Rightarrow>
          if encodable c then (Inr True, w\<lparr>files := (files w)(h \<mapsto> Text c)\<rparr>)
          else (Inl UnicodeEncodeError, w\<lparr>files := (files w)(h \<mapsto> Text [])\<rparr>))"
  using assms by (simp add: add_image_to_html_def new_array_content_def Let_def)

lemma new_array_content_plain:
  assumes "plain body f"
  shows "BACKSLASH \<notin> set (new_array_content body f) \<and> new_array_content body f \<noteq> [] \<and>
         \<not> isdigit (hd (new_array_content body f))"
proof (cases "body = []")
  case True
  with assms show ?thesis
    by (simp add: plain_def new_array_content_def indent_simp quoted_def isdigit_def)
next
  case False
  with assms have "\<not> isdigit (hd body)" by (simp add: plain_def)
  moreover have "\<not> isdigit NEWLINE" by (simp add: isdigit_def)
  ultimately show ?thesis using False assms
    by (simp add: plain_def new_array_content_def indent_simp quoted_def)
qed

lemma re_sub_plain:
  assumes "plain body f"
  shows "re_sub ([BACKSLASH, 49] @ new_array_content body f @ [BACKSLASH, 51]) s =
     Inr (concat (map (\<lambda>k. pre k @ g1 k @ new_array_content body f @ g3 k) (finditer s))
          @ remainder s)"
proof -
  let ?nb = "new_array_content body f"
  from new_array_content_plain [OF assms]
  have "parse_template ([BACKSLASH, 49] @ ?nb @ [BACKSLASH, 51]) = Inr (Group 1 # map Lit ?nb @ [Group 3])"
    by (intro template_plain) simp_all
  then show ?thesis by (simp only: re_sub_def sub_template_plain sum.case)
qed

lemma patch_plain:
  assumes "files w h = Some (Text stored)" and "re_search (universal_newlines stored) = Some m"
    and "plain (strip (g2 m)) f" and "encodable stored" and "encodable f"
  shows "add_image_to_html f h w =
     (Inr True, w\<lparr>files := (files w)(h \<mapsto> Text (
        concat (map (\<lambda>k. pre k @ g1 k @ new_array_content (strip (g2 m)) f @ g3 k)
                  (finditer (universal_newlines stored)))
        @ remainder (universal_newlines stored)))\<rparr>)"
proof -
  let ?content = "universal_newlines stored"
  let ?nb = "new_array_content (strip (g2 m)) f"
  let ?new = "concat (map (\<lambda>k. pre k @ g1 k @ ?nb @ g3 k) (finditer ?content)) @ remainder ?content"
  from re_search_sound [OF assms(2)] have eq: "?content = pre m @ g1 m @ g2 m @ g3 m @ post m"
    by simp
  from arg_cong [OF eq, of set] have "set (g2 m) \<subseteq> set ?content" by auto
  with set_strip [of "g2 m"] have b: "set (strip (g2 m)) \<subseteq> set ?content" by blast
  have c: "\<forall>c\<in>set ?content. \<not> surrogate c"
    using encodable_read [OF assms(4)] by (simp add: encodable_iff)
  have "\<forall>c\<in>set ?nb. \<not> surrogate c"
  proof
    fix x
    assume "x \<in> set ?nb"
    with set_new_array_content [of "strip (g2 m)" f] b
    have "x \<in> set ?content \<or> x \<in> set f \<or> x \<in> {COMMA, NEWLINE, 32, DQUOTE}" by blast
    then show "\<not> surrogate x"
    proof (elim disjE)
      assume "x \<in> set ?content" with c show ?thesis by blast
    next
      assume "x \<in> set f" with assms(5) show ?thesis by (simp add: encodable_iff)
    next
      assume "x \<in> {COMMA, NEWLINE, 32, DQUOTE}" then show ?thesis by (auto simp: surrogate_def)
    qed
  qed
  with c set_sub_plain [of ?nb ?content] have "encodable ?new"
    unfolding encodable_iff by blast
  with add_image_to_html_unfold [OF assms(1,2), of f] re_sub_plain [OF assms(3), of ?content]
  show ?thesis by (simp only: sum.case if_True)
qed

subsection \<open>Evaluation on concrete documents\<close>

text \<open>
  The equations that evaluate the model on a concrete document or a concrete run.
\<close>

lemmas eval_simps = py_Nil py_Cons match_here_def group1_def spaces0_def spaces1_def isspace_def
  strip_def endswith_def indent_def quoted_def print_def re_sub_def parse_template.simps
  sub_template.simps addliteral_def addgroup_def pattern_groups_def isdigit_def isoctdigit_def
  isasciiletter_def escapes_def digit_def group_def int_of_digits_def Let_def
  encodable_def surrogate_def plain_def

lemmas world_simps = gallery_def no_page_def broken_git_def garbled_push_def
  nothing_to_commit_def pending_changes_def status_fails_def status_garbled_def
  site_def page_def empty_list_def main_def exists_def basename_def
  path_join_def add_image_to_html_def commit_and_push_changes_def check_git_repo_def
  run_git_command_def

lemma single_occurrence:
  assumes "re_search s = Some m" and "re_search (post m) = None"
  shows "finditer s = [m]" and "remainder s = post m"
  using assms by (simp_all add: finditer_Some finditer_None remainder_Some remainder_None)

lemma finditer_first:
  assumes "re_search s = Some m"
  shows "concat (map (\<lambda>k. pre k @ g1 k @ nb @ g3 k) (finditer s)) @ remainder s =
         pre m @ g1 m @ nb @ g3 m @
           (concat (map (\<lambda>k. pre k @ g1 k @ nb @ g3 k) (finditer (post m))) @ remainder (post m))"
  by (simp only: finditer_Some [OF assms] remainder_Some [OF assms]) simp

lemma one_entry_search:
  "re_search (universal_newlines (page one_entry)) =
     Some \<lparr>pre = py ''<script>'', g1 = py ''const images = ['',
           g2 = [NEWLINE] @ indent @ quoted (py ''a.jpg'') @ [NEWLINE] @ py ''    '',
           g3 = py ''];'', post = py ''</script>''\<rparr>"
  by (simp add: page_def one_entry_def eval_simps)

lemma script_end_search: "re_search (py ''</script>'') = None"
  by (simp add: eval_simps)


lemma empty_list_search:
  "re_search (universal_newlines (page empty_list)) =
     Some \<lparr>pre = py ''<script>'', g1 = py ''const images = ['', g2 = [], g3 = py ''];'',
           post = py ''</script>''\<rparr>"
  by (simp add: page_def empty_list_def eval_simps)

lemma two_lists_search:
  "re_search (universal_newlines two_lists) =
     Some \<lparr>pre = [], g1 = py ''const images = ['', g2 = quoted (py ''a''), g3 = py ''];'',
           post = py ''const images = ['' @ quoted (py ''b'') @ py ''];''\<rparr>"
  by (simp add: two_lists_def eval_simps)

subsection \<open>The closing token and the stripped body\<close>

lemma has_close_Cons: "x \<noteq> 93 \<Longrightarrow> has_close (x # s) = has_close s"
  by (cases s) auto

lemma has_close_snoc: "x \<noteq> 59 \<Longrightarrow> has_close (s @ [x]) = has_close s"
  using has_close_append [of s "[x]"] by auto

lemma strip_padded:
  assumes "list_all isspace a" and "list_all isspace b"
  shows "strip (a @ quoted f @ b) = quoted f"
proof -
  have q: "\<not> isspace DQUOTE" by (simp add: isspace_def)
  have 1: "dropWhile isspace (a @ quoted f @ b) = DQUOTE # f @ [DQUOTE] @ b"
    using dropWhile_spaces [OF assms(1) q, of "f @ [DQUOTE] @ b"] by (simp add: quoted_def)
  have rb: "list_all isspace (rev b)" using assms(2) by (simp add: list_all_iff)
  have 2: "dropWhile isspace (rev (DQUOTE # f @ [DQUOTE] @ b)) = DQUOTE # rev f @ [DQUOTE]"
    using dropWhile_spaces [OF rb q, of "rev f @ [DQUOTE]"] by simp
  show ?thesis unfolding strip_def 1 2 by (simp add: quoted_def)
qed

lemma spaces_indent: "list_all isspace (NEWLINE # indent)"
  by (simp add: indent_simp isspace_def)

lemma patched_members:
  assumes "re_search content = Some m"
  shows "set (concat (map (\<lambda>k. pre k @ g1 k @ new_array_content (strip (g2 m)) f @ g3 k)
                       (finditer content)) @ remainder content)
         \<subseteq> set content \<union> set f \<union> {COMMA, NEWLINE, 32, DQUOTE}"
proof -
  from re_search_sound [OF assms] have eq: "content = pre m @ g1 m @ g2 m @ g3 m @ post m" by simp
  from arg_cong [OF eq, of set] have "set (g2 m) \<subseteq> set content" by auto
  with set_strip [of "g2 m"] have "set (strip (g2 m)) \<subseteq> set content" by blast
  with set_new_array_content [of "strip (g2 m)" f]
    set_sub_plain [of "new_array_content (strip (g2 m)) f" content]
  show ?thesis by blast
qed

subsection \<open>The search does not depend on how line ends are written\<close>

text \<open>
  The pattern treats CR and LF alike: \<open>\s\<close> matches both, and neither occurs in a literal
  of the pattern. So the text read has an occurrence only if the stored text has one: a
  match in the text read is pulled back, piece by piece, to the stored text.
\<close>

lemma universal_newlines_Cons_cr:
  "s = [] \<or> hd s \<noteq> 10 \<Longrightarrow> universal_newlines (13 # s) = NEWLINE # universal_newlines s"
  by (cases s) auto

lemma universal_newlines_Cons_other:
  "c \<noteq> 13 \<Longrightarrow> universal_newlines (c # s) = c # universal_newlines s"
  by (cases s) auto

lemma universal_newlines_split:
  "universal_newlines s = a @ b \<Longrightarrow>
     \<exists>s1 s2. s = s1 @ s2 \<and> universal_newlines s1 = a \<and> universal_newlines s2 = b"
proof (induction s arbitrary: a rule: universal_newlines.induct)
  case (1 c d cs)
  show ?case
  proof (cases a)
    case Nil
    with 1(4) have "c # d # cs = [] @ c # d # cs \<and> universal_newlines [] = a \<and>
        universal_newlines (c # d # cs) = b" by simp
    then show ?thesis by blast
  next
    case (Cons a0 a')
    consider (crlf) "c = 13 \<and> d = 10" | (cr) "c = 13" "d \<noteq> 10" | (other) "c \<noteq> 13" by blast
    then show ?thesis
    proof cases
      case crlf
      with 1(4) Cons have eq: "universal_newlines cs = a' @ b" and a0: "a0 = NEWLINE" by auto
      from 1(1) [OF crlf eq] obtain s1 s2 where
        s: "cs = s1 @ s2" "universal_newlines s1 = a'" "universal_newlines s2 = b" by blast
      have "c # d # cs = (c # d # s1) @ s2 \<and> universal_newlines (c # d # s1) = a \<and>
          universal_newlines s2 = b"
        using s crlf Cons a0 by simp
      then show ?thesis by blast
    next
      case cr
      with 1(4) Cons have eq: "universal_newlines (d # cs) = a' @ b" and a0: "a0 = NEWLINE" by auto
      have n: "\<not> (c = 13 \<and> d = 10)" using cr by simp
      from 1(2) [OF n cr(1) eq] obtain s1 s2 where
        s: "d # cs = s1 @ s2" "universal_newlines s1 = a'" "universal_newlines s2 = b" by blast
      from s(1) cr(2) have "s1 = [] \<or> hd s1 \<noteq> 10" by (cases s1) auto
      from universal_newlines_Cons_cr [OF this]
      have "c # d # cs = (c # s1) @ s2 \<and> universal_newlines (c # s1) = a \<and>
          universal_newlines s2 = b"
        using s cr Cons a0 by simp
      then show ?thesis by blast
    next
      case other
      with 1(4) Cons have eq: "universal_newlines (d # cs) = a' @ b" and a0: "a0 = c" by auto
      have n: "\<not> (c = 13 \<and> d = 10)" using other by simp
      from 1(3) [OF n other eq] obtain s1 s2 where
        s: "d # cs = s1 @ s2" "universal_newlines s1 = a'" "universal_newlines s2 = b" by blast
      from universal_newlines_Cons_other [OF other]
      have "c # d # cs = (c # s1) @ s2 \<and> universal_newlines (c # s1) = a \<and>
          universal_newlines s2 = b"
        using s Cons a0 by simp
      then show ?thesis by blast
    qed
  qed
next
  case (2 c)
  show ?case
  proof (cases a)
    case Nil
    with 2 have "[c] = [] @ [c] \<and> universal_newlines [] = a \<and> universal_newlines [c] = b" by simp
    then show ?thesis by blast
  next
    case (Cons a0 a')
    with 2 have "[c] = [c] @ [] \<and> universal_newlines [c] = a \<and> universal_newlines [] = b"
      by (auto split: if_splits)
    then show ?thesis by blast
  qed
next
  case 3
  then show ?case by simp
qed

lemma universal_newlines_cr: "13 \<in> set t \<Longrightarrow> NEWLINE \<in> set (universal_newlines t)"
  by (induction t rule: universal_newlines.induct) (auto split: if_splits)

lemma universal_newlines_eq:
  assumes "universal_newlines x = y" and "NEWLINE \<notin> set y"
  shows "x = y"
proof -
  from assms universal_newlines_cr [of x] have "13 \<notin> set x" by auto
  from universal_newlines_id [OF this] assms(1) show ?thesis by simp
qed

lemma universal_newlines_source:
  "c \<in> set t \<Longrightarrow> c = 13 \<or> c \<in> set (universal_newlines t)"
  by (induction t rule: universal_newlines.induct) (auto split: if_splits)

lemma universal_newlines_spaces:
  assumes "list_all isspace (universal_newlines t)"
  shows "list_all isspace t"
  unfolding list_all_iff
proof
  fix c
  assume "c \<in> set t"
  from universal_newlines_source [OF this] assms show "isspace c"
    by (auto simp: list_all_iff isspace_def)
qed

lemma universal_newlines_Nil: "universal_newlines t = [] \<Longrightarrow> t = []"
  by (cases t rule: universal_newlines.cases) (auto split: if_splits)

lemma opening_read:
  assumes "is_opening (universal_newlines t)"
  shows "is_opening t"
proof -
  from assms obtain w1 w2 w3 where
    t: "universal_newlines t = py ''const'' @ w1 @ py ''images'' @ w2 @ [61] @ w3 @ [91]" and
    w: "w1 \<noteq> []" "list_all isspace w1" "list_all isspace w2" "list_all isspace w3"
    unfolding is_opening_def by blast
  from universal_newlines_split [OF t] obtain k1 r1 where
    s1: "t = k1 @ r1" "universal_newlines k1 = py ''const''"
      "universal_newlines r1 = w1 @ py ''images'' @ w2 @ [61] @ w3 @ [91]" by blast
  from universal_newlines_split [OF s1(3)] obtain v1 r2 where
    s2: "r1 = v1 @ r2" "universal_newlines v1 = w1"
      "universal_newlines r2 = py ''images'' @ w2 @ [61] @ w3 @ [91]" by blast
  from universal_newlines_split [OF s2(3)] obtain k2 r3 where
    s3: "r2 = k2 @ r3" "universal_newlines k2 = py ''images''"
      "universal_newlines r3 = w2 @ [61] @ w3 @ [91]" by blast
  from universal_newlines_split [OF s3(3)] obtain v2 r4 where
    s4: "r3 = v2 @ r4" "universal_newlines v2 = w2"
      "universal_newlines r4 = [61] @ w3 @ [91]" by blast
  from universal_newlines_split [OF s4(3)] obtain k3 r5 where
    s5: "r4 = k3 @ r5" "universal_newlines k3 = [61]"
      "universal_newlines r5 = w3 @ [91]" by blast
  from universal_newlines_split [OF s5(3)] obtain v3 k4 where
    s6: "r5 = v3 @ k4" "universal_newlines v3 = w3" "universal_newlines k4 = [91]" by blast
  have k1: "k1 = py ''const''" by (rule universal_newlines_eq [OF s1(2)]) (simp add: py_simps)
  have k2: "k2 = py ''images''" by (rule universal_newlines_eq [OF s3(2)]) (simp add: py_simps)
  have k3: "k3 = [61]" by (rule universal_newlines_eq [OF s5(2)]) simp
  have k4: "k4 = [91]" by (rule universal_newlines_eq [OF s6(3)]) simp
  have v1: "v1 \<noteq> []" using s2(2) w(1) by auto
  have sp: "list_all isspace v1" "list_all isspace v2" "list_all isspace v3"
    using universal_newlines_spaces [of v1] universal_newlines_spaces [of v2]
      universal_newlines_spaces [of v3] s2(2) s4(2) s6(2) w by simp_all
  have "t = py ''const'' @ v1 @ py ''images'' @ v2 @ [61] @ v3 @ [91]"
    unfolding s1(1) s2(1) s3(1) s4(1) s5(1) s6(1) k1 k2 k3 k4 by simp
  with v1 sp show ?thesis unfolding is_opening_def by blast
qed

lemma re_search_later: "re_search s \<noteq> None \<Longrightarrow> re_search (p @ s) \<noteq> None"
  by (induction p) (auto split: option.splits)

lemma re_search_occurs:
  assumes "is_opening t"
  shows "re_search (p @ t @ x @ 93 # 59 # r) \<noteq> None"
proof -
  from group1_complete [OF assms, of "x @ 93 # 59 # r"] lazy_body_exists [of x r]
  have "match_here (t @ x @ 93 # 59 # r) \<noteq> None"
    unfolding match_here_def by (auto split: option.splits)
  then obtain m where "match_here (t @ x @ 93 # 59 # r) = Some m" by auto
  from re_search_here [OF this] have "re_search (t @ x @ 93 # 59 # r) \<noteq> None" by simp
  from re_search_later [OF this] show ?thesis .
qed

lemma re_search_read:
  assumes "re_search s = None"
  shows "re_search (universal_newlines s) = None"
proof (rule ccontr)
  assume "re_search (universal_newlines s) \<noteq> None"
  then obtain m where m: "re_search (universal_newlines s) = Some m" by auto
  from re_search_elim [OF m] obtain rest where
    r: "universal_newlines s = pre m @ rest" "match_here rest = Some (m\<lparr>pre := []\<rparr>)" by blast
  note ms = match_here_sound [OF r(2), simplified]
  from ms have rest: "rest = g1 m @ g2 m @ g3 m @ post m" and op: "is_opening (g1 m)"
    and g3: "g3 m = [93, 59]" by blast+
  from r(1) rest g3 have
    t: "universal_newlines s = pre m @ g1 m @ g2 m @ [93, 59] @ post m" by simp
  from universal_newlines_split [OF t] obtain p r1 where
    s1: "s = p @ r1" "universal_newlines r1 = g1 m @ g2 m @ [93, 59] @ post m" by blast
  from universal_newlines_split [OF s1(2)] obtain t1 r2 where
    s2: "r1 = t1 @ r2" "universal_newlines t1 = g1 m"
      "universal_newlines r2 = g2 m @ [93, 59] @ post m" by blast
  from universal_newlines_split [OF s2(3)] obtain x r3 where
    s3: "r2 = x @ r3" "universal_newlines r3 = [93, 59] @ post m" by blast
  from universal_newlines_split [OF s3(2)] obtain k r4 where
    s4: "r3 = k @ r4" "universal_newlines k = [93, 59]" by blast
  have k: "k = [93, 59]" by (rule universal_newlines_eq [OF s4(2)]) simp
  from op s2(2) have "is_opening t1" by (simp add: opening_read)
  from re_search_occurs [OF this, of p x r4] have "re_search s \<noteq> None"
    unfolding s1(1) s2(1) s3(1) s4(1) k by simp
  with assms show False by simp
qed

subsection \<open>The destination of the copy\<close>

lemma basename_no_separator: "47 \<notin> set (basename path)"
  by (auto simp: basename_def dest: set_takeWhileD)

lemma destination_images:
  "path_join (py ''images'') (basename path) = py ''images/'' @ basename path"
proof -
  have "basename path = [] \<or> hd (basename path) \<noteq> 47"
    using basename_no_separator [of path] by (cases "basename path") auto
  then show ?thesis by (auto simp: path_join_def py_Nil py_Cons)
qed

lemma destination_not_html:
  "path_join (py ''images'') (basename path) \<noteq> py ''index.html''"
  unfolding destination_images by (simp add: py_Nil py_Cons)

subsection \<open>The exit status when the output of git decodes\<close>

text \<open>
  When no git command prints bytes that fail to decode, \<open>commit_and_push_changes\<close> returns
  (it raises nothing), and the exit status of \<open>main\<close> is decided by the argument, the
  copy and the patch alone: 1 when no argument is given, when the image path does not
  exist, when \<open>os.makedirs\<close> or \<open>shutil.copy2\<close> raises and when \<open>add_image_to_html\<close>
  does not return \<open>True\<close>, and 0 otherwise, whatever the git commands answer.
\<close>

lemma commit_and_push_changes_decodable:
  assumes "\<And>command. shell env command \<noteq> UndecodableOutput"
  shows "\<exists>published w'. commit_and_push_changes env image_filename commit_message w = (Inr published, w')"
  using assms
  by (auto simp: commit_and_push_changes_def check_git_repo_def run_git_command_def Let_def
      split: run_result.splits)

lemma main_exit_status_decodable:
  assumes "\<And>command. shell env command \<noteq> UndecodableOutput"
  shows "fst (main env argv w) =
     (if length argv < 2 then 1
      else if \<not> exists w (argv ! 1) then 1
      else if makedirs_raises env (py ''images'') \<or>
              copy2_raises env (argv ! 1) (path_join (py ''images'') (basename (argv ! 1))) then 1
      else if fst (add_image_to_html (basename (argv ! 1)) (py ''index.html'')
                (print (MsgCopied (basename (argv ! 1)) (py ''images''))
                  (w\<lparr>files := (files w)(path_join (py ''images'') (basename (argv ! 1)) \<mapsto>
                        the (files w (argv ! 1)))\<rparr>))) = Inr True then 0
      else 1)"
proof -
  have c: "commit_and_push_changes env f m v \<noteq> (Inl e, w')" for f m v e w'
    using commit_and_push_changes_decodable [OF assms, of f m v] by auto
  show ?thesis
    by (auto simp: main_def Let_def c split: prod.splits sum.splits bool.splits)
qed

section \<open>The claims\<close>

subsection \<open>The worked scenario\<close>

text \<open>
  C1, as stated, fails: \<open>array_content\<close> is the stripped group 2, and the replacement puts
  nothing back between \<open>[\<close> and the first entry or between the last entry and \<open>];\<close>.
  The declaration written is \<open>const images = ["a.jpg",\<close>, newline, six spaces,
  \<open>"b.jpg"];\<close>, not the one the claim gives. Nor is everything around the declaration
  unchanged: the file is read in text mode, so a CR LF or a CR before or after the
  declaration is written back as LF (third conjunct).
\<close>

theorem scenario_counterexample:
  "add_image_to_html (py ''b.jpg'') (py ''index.html'') (site (page one_entry)) =
     (Inr True, site (page (py ''const images = ['' @ quoted (py ''a.jpg'') @ [COMMA, NEWLINE] @ indent
         @ quoted (py ''b.jpg'') @ py ''];''))) \<and>
   page (py ''const images = ['' @ quoted (py ''a.jpg'') @ [COMMA, NEWLINE] @ indent
         @ quoted (py ''b.jpg'') @ py ''];'') \<noteq>
   page (py ''const images = ['' @ [NEWLINE] @ indent @ quoted (py ''a.jpg'') @ [COMMA, NEWLINE] @ indent
         @ quoted (py ''b.jpg'') @ [NEWLINE] @ py ''    ];'') \<and>
   add_image_to_html (py ''b.jpg'') (py ''index.html'')
       (site (py ''<body>'' @ [13, NEWLINE] @ one_entry @ [13] @ py ''</body>'')) =
     (Inr True, site (py ''<body>'' @ [NEWLINE] @
        (py ''const images = ['' @ quoted (py ''a.jpg'') @ [COMMA, NEWLINE] @ indent
         @ quoted (py ''b.jpg'') @ py ''];'') @ [NEWLINE] @ py ''</body>''))"
  by (simp add: add_image_to_html_def site_def page_def one_entry_def eval_simps)

text \<open>
  C1, amended. Take a document that holds no surrogate code point and whose text as read
  (CR LF and CR arrive as LF) has one declaration only, exactly \<open>const images = [\<close>,
  newline, six spaces, \<open>"a.jpg"\<close>, newline, four spaces, \<open>];\<close>. Adding \<open>b.jpg\<close>
  returns \<open>True\<close> and writes the text read with the declaration replaced by exactly
  \<open>const images = ["a.jpg",\<close>, newline, six spaces, \<open>"b.jpg"];\<close>: the white space after
  \<open>[\<close> and before \<open>];\<close> is not kept, and everything before and after the declaration is
  written as it was read, which is as it was stored when the document holds no CR.
\<close>

theorem scenario_amended:
  assumes "files w html_file = Some (Text stored)"
    and "re_search (universal_newlines stored) =
      Some \<lparr>pre = before, g1 = py ''const images = ['',
            g2 = [NEWLINE] @ indent @ quoted (py ''a.jpg'') @ [NEWLINE] @ py ''    '',
            g3 = py ''];'', post = after\<rparr>"
    and "re_search after = None"
    and "encodable stored"
  shows "add_image_to_html (py ''b.jpg'') html_file w =
     (Inr True, w\<lparr>files := (files w)(html_file \<mapsto> Text (
        before @ (py ''const images = ['' @ quoted (py ''a.jpg'') @ [COMMA, NEWLINE] @ indent
          @ quoted (py ''b.jpg'') @ py ''];'') @ after))\<rparr>) \<and>
     universal_newlines stored =
        before @ (py ''const images = ['' @ [NEWLINE] @ indent @ quoted (py ''a.jpg'') @ [NEWLINE]
          @ py ''    '' @ py ''];'') @ after \<and>
     (13 \<notin> set stored \<longrightarrow> universal_newlines stored = stored)"
proof -
  let ?m = "\<lparr>pre = before, g1 = py ''const images = ['',
            g2 = [NEWLINE] @ indent @ quoted (py ''a.jpg'') @ [NEWLINE] @ py ''    '',
            g3 = py ''];'', post = after\<rparr>"
  have s: "strip (g2 ?m) = quoted (py ''a.jpg'')" by (simp add: eval_simps)
  have p: "plain (strip (g2 ?m)) (py ''b.jpg'')" unfolding s by (simp add: eval_simps)
  have e: "encodable (py ''b.jpg'')" by (simp add: eval_simps)
  have h3: "re_search (post ?m) = None" using assms(3) by simp
  have n: "new_array_content (quoted (py ''a.jpg'')) (py ''b.jpg'') =
      quoted (py ''a.jpg'') @ [COMMA, NEWLINE] @ indent @ quoted (py ''b.jpg'')"
    by (simp add: new_array_content_def eval_simps)
  from patch_plain [OF assms(1,2) p assms(4) e]
  have 1: "add_image_to_html (py ''b.jpg'') html_file w =
     (Inr True, w\<lparr>files := (files w)(html_file \<mapsto> Text (
        before @ (py ''const images = ['' @ quoted (py ''a.jpg'') @ [COMMA, NEWLINE] @ indent
          @ quoted (py ''b.jpg'') @ py ''];'') @ after))\<rparr>)"
    unfolding single_occurrence [OF assms(2) h3] s n by (simp add: eval_simps)
  from re_search_sound [OF assms(2)]
  have 2: "universal_newlines stored =
        before @ (py ''const images = ['' @ [NEWLINE] @ indent @ quoted (py ''a.jpg'') @ [NEWLINE]
          @ py ''    '' @ py ''];'') @ after"
    by simp
  from 1 2 universal_newlines_id show ?thesis by blast
qed

theorem scenario_amended_witness:
  "files (site (page one_entry)) (py ''index.html'') = Some (Text (page one_entry)) \<and>
   re_search (universal_newlines (page one_entry)) =
     Some \<lparr>pre = py ''<script>'', g1 = py ''const images = ['',
           g2 = [NEWLINE] @ indent @ quoted (py ''a.jpg'') @ [NEWLINE] @ py ''    '',
           g3 = py ''];'', post = py ''</script>''\<rparr> \<and>
   re_search (py ''</script>'') = None \<and>
   encodable (page one_entry) \<and>
   13 \<notin> set (page one_entry) \<and>
   add_image_to_html (py ''b.jpg'') (py ''index.html'') (site (page one_entry)) =
     (Inr True, (site (page one_entry))\<lparr>files := (files (site (page one_entry)))(py ''index.html'' \<mapsto>
        Text (py ''<script>'' @ (py ''const images = ['' @ quoted (py ''a.jpg'') @ [COMMA, NEWLINE] @ indent
          @ quoted (py ''b.jpg'') @ py ''];'') @ py ''</script>''))\<rparr>) \<and>
   universal_newlines (page one_entry) = page one_entry"
proof -
  have h1: "files (site (page one_entry)) (py ''index.html'') = Some (Text (page one_entry))"
    by (simp add: site_def)
  have h4: "encodable (page one_entry)" by (simp add: page_def one_entry_def eval_simps)
  have h5: "13 \<notin> set (page one_entry)" by (simp add: page_def one_entry_def eval_simps)
  from scenario_amended [OF h1 one_entry_search script_end_search h4]
    h1 one_entry_search script_end_search h4 h5
  show ?thesis by blast
qed

subsection \<open>The frame of a patch\<close>




subsection \<open>No declaration, no write\<close>

text \<open>
  C3. When the text of the document holds no occurrence of the pattern
  \<open>const images = [ ... ];\<close> (in the stored text, from which the same follows for the text
  read, or in the text read), \<open>add_image_to_html\<close> returns \<open>False\<close>, whatever the file
  name, and writes nothing: it prints its error line and leaves every file as it was.
\<close>

theorem no_pattern_no_write:
  assumes "files w html_file = Some (Text stored)"
    and "re_search stored = None \<or> re_search (universal_newlines stored) = None"
  shows "add_image_to_html image_filename html_file w = (Inr False, print MsgPatternNotFound w) \<and>
         files (print MsgPatternNotFound w) = files w"
proof -
  from assms(2) re_search_read [of stored] have "re_search (universal_newlines stored) = None"
    by blast
  with assms(1) show ?thesis by (simp add: add_image_to_html_def print_def)
qed

theorem no_pattern_no_write_witness:
  "files (site (py ''<p>const images = none;</p>'')) (py ''index.html'') =
      Some (Text (py ''<p>const images = none;</p>'')) \<and>
   re_search (py ''<p>const images = none;</p>'') = None \<and>
   add_image_to_html (py ''a.jpg'') (py ''index.html'') (site (py ''<p>const images = none;</p>'')) =
     (Inr False,
      \<lparr>files = [py ''index.html'' \<mapsto> Text (py ''<p>const images = none;</p>'')],
         stdout = [MsgPatternNotFound], commands = []\<rparr>)"
proof -
  let ?w = "site (py ''<p>const images = none;</p>'')"
  have h1: "files ?w (py ''index.html'') = Some (Text (py ''<p>const images = none;</p>''))"
    by (simp add: site_def)
  have h2: "re_search (py ''<p>const images = none;</p>'') = None" by (simp add: eval_simps)
  from no_pattern_no_write [OF h1 disjI1 [OF h2], of "py ''a.jpg''"] h1 h2 show ?thesis
    by (simp add: print_def site_def)
qed

subsection \<open>Two appends to an empty list\<close>

text \<open>
  C4, as stated, fails for some file names. A name that holds \<open>];\<close> ends the lazy group 2
  of the next search inside the entry, so the body found after the second call is not the
  two quoted entries; a backslash in a name is expanded by the replacement template (the
  name \<open>\1\<close> is written as the opening of the declaration); a CR in the first name is read
  back as LF by the second call; and a name with a lone surrogate (a command-line argument
  that is no UTF-8) cannot be encoded: the write raises after the file was truncated and
  leaves the document empty.
\<close>

theorem two_appends_counterexample:
  "add_image_to_html (py ''];'') (py ''index.html'') (site empty_list) =
     (Inr True, site (py ''const images = ['' @ [NEWLINE] @ indent @ quoted (py ''];'') @ [NEWLINE] @ indent @ py ''];'')) \<and>
   add_image_to_html (py ''b.jpg'') (py ''index.html'')
       (site (py ''const images = ['' @ [NEWLINE] @ indent @ quoted (py ''];'') @ [NEWLINE] @ indent @ py ''];'')) =
     (Inr True, site (py ''const images = ['' @ [DQUOTE, COMMA, NEWLINE] @ indent @ quoted (py ''b.jpg'')
        @ py ''];'' @ [DQUOTE, NEWLINE] @ indent @ py ''];'')) \<and>
   g2 (the (re_search (py ''const images = ['' @ [DQUOTE, COMMA, NEWLINE] @ indent @ quoted (py ''b.jpg'')
        @ py ''];'' @ [DQUOTE, NEWLINE] @ indent @ py ''];''))) =
     [DQUOTE, COMMA, NEWLINE] @ indent @ quoted (py ''b.jpg'') \<and>
   [DQUOTE, COMMA, NEWLINE] @ indent @ quoted (py ''b.jpg'') \<noteq>
     quoted (py ''];'') @ [COMMA, NEWLINE] @ indent @ quoted (py ''b.jpg'') \<and>
   add_image_to_html [BACKSLASH, 49] (py ''index.html'') (site empty_list) =
     (Inr True, site (py ''const images = ['' @ [NEWLINE] @ indent @ quoted (py ''const images = ['')
        @ [NEWLINE] @ indent @ py ''];'')) \<and>
   add_image_to_html [97, 13, 98] (py ''index.html'') (site empty_list) =
     (Inr True, site (py ''const images = ['' @ [NEWLINE] @ indent @ quoted [97, 13, 98]
        @ [NEWLINE] @ indent @ py ''];'')) \<and>
   add_image_to_html (py ''b.jpg'') (py ''index.html'')
       (site (py ''const images = ['' @ [NEWLINE] @ indent @ quoted [97, 13, 98]
        @ [NEWLINE] @ indent @ py ''];'')) =
     (Inr True, site (py ''const images = ['' @ quoted [97, NEWLINE, 98] @ [COMMA, NEWLINE] @ indent
        @ quoted (py ''b.jpg'') @ py ''];'')) \<and>
   add_image_to_html [55296] (py ''index.html'') (site empty_list) =
     (Inl UnicodeEncodeError, site [])"
  by (simp add: add_image_to_html_def site_def empty_list_def eval_simps)

text \<open>
  C4, amended. Take file names \<open>f1\<close> and \<open>f2\<close> that hold no backslash, no \<open>];\<close> and no
  surrogate code point, \<open>f1\<close> holding no CR either, and a document without surrogate
  code points in which the stripped body of the first declaration is empty. Adding \<open>f1\<close>
  and then \<open>f2\<close> returns \<open>True\<close> twice, and in the document then stored the first
  declaration has the opening it had and the body \<open>"f1",\<close>, newline, six spaces,
  \<open>"f2"\<close>: the two quoted entries in that order, one comma between them and none before
  \<open>];\<close>.
\<close>

theorem two_appends_amended:
  assumes "files w html_file = Some (Text stored)"
    and "re_search (universal_newlines stored) = Some m"
    and "strip (g2 m) = []" and "encodable stored"
    and "BACKSLASH \<notin> set f1" and "BACKSLASH \<notin> set f2"
    and "\<not> has_close f1" and "\<not> has_close f2"
    and "encodable f1" and "encodable f2" and "13 \<notin> set f1"
  shows "\<exists>w1 w2 content2 after.
           add_image_to_html f1 html_file w = (Inr True, w1) \<and>
           add_image_to_html f2 html_file w1 = (Inr True, w2) \<and>
           files w2 html_file = Some (Text content2) \<and>
           re_search content2 =
             Some \<lparr>pre = pre m, g1 = g1 m,
                   g2 = quoted f1 @ [COMMA, NEWLINE] @ indent @ quoted f2,
                   g3 = py ''];'', post = after\<rparr>"
proof -
  let ?content = "universal_newlines stored"
  let ?nb1 = "[NEWLINE] @ indent @ quoted f1 @ [NEWLINE] @ indent"
  let ?nb2 = "quoted f1 @ [COMMA, NEWLINE] @ indent @ quoted f2"
  from re_search_sound [OF assms(2)] have g3: "g3 m = [93, 59]" by simp
  have n1: "new_array_content (strip (g2 m)) f1 = ?nb1"
    by (simp add: assms(3) new_array_content_def)
  have p1: "plain (strip (g2 m)) f1" using assms(5) by (simp add: assms(3) plain_def)
  define r1 where "r1 = concat (map (\<lambda>k. pre k @ g1 k @ ?nb1 @ g3 k) (finditer (post m))) @ remainder (post m)"
  define c1 where "c1 = pre m @ g1 m @ ?nb1 @ 93 # 59 # r1"
  define w1 where "w1 = w\<lparr>files := (files w)(html_file \<mapsto> Text c1)\<rparr>"
  have c1: "concat (map (\<lambda>k. pre k @ g1 k @ new_array_content (strip (g2 m)) f1 @ g3 k)
                       (finditer ?content)) @ remainder ?content = c1"
    unfolding n1 finditer_first [OF assms(2)] c1_def r1_def g3 by simp
  from patch_plain [OF assms(1,2) p1 assms(4,9)]
  have a1: "add_image_to_html f1 html_file w = (Inr True, w1)"
    unfolding c1 w1_def .
  from patched_members [OF assms(2), of f1]
  have m1: "set c1 \<subseteq> set ?content \<union> set f1 \<union> {COMMA, NEWLINE, 32, DQUOTE}"
    unfolding c1 .
  have "13 \<notin> set c1"
    using m1 universal_newlines_no_cr [of stored] assms(11) by auto
  then have rd: "universal_newlines c1 = c1" by (rule universal_newlines_id)
  have e1: "encodable c1"
    unfolding encodable_iff
  proof
    fix x assume "x \<in> set c1"
    with m1 have "x \<in> set ?content \<or> x \<in> set f1 \<or> x \<in> {COMMA, NEWLINE, 32, DQUOTE}" by blast
    then show "\<not> surrogate x"
      using encodable_read [OF assms(4)] assms(9) by (auto simp: encodable_iff surrogate_def)
  qed
  have nc1: "\<not> has_close ?nb1"
    using assms(7)
    by (simp add: indent_simp quoted_def has_close_Cons has_close_append [of f1])
  let ?m1 = "\<lparr>pre = pre m, g1 = g1 m, g2 = ?nb1, g3 = [93, 59], post = r1\<rparr>"
  from re_search_replace [OF assms(2) nc1, of r1]
  have "re_search c1 = Some ?m1" unfolding c1_def by simp
  then have s1: "re_search (universal_newlines c1) = Some ?m1" by (simp only: rd)
  have f1: "files w1 html_file = Some (Text c1)" by (simp add: w1_def)
  have st: "strip (g2 ?m1) = quoted f1"
    using strip_padded [OF spaces_indent spaces_indent, of f1] by simp
  have p2: "plain (strip (g2 ?m1)) f2"
    unfolding st using assms(5,6) by (simp add: plain_def quoted_def isdigit_def)
  have sq: "strip (quoted f1) = quoted f1"
    using strip_padded [of "[]" "[]" f1] by simp
  have ne: "\<not> endswith (quoted f1) [COMMA]" by (simp add: endswith_def quoted_def)
  have n2: "new_array_content (strip (g2 ?m1)) f2 = ?nb2"
    unfolding st using ne sq by (simp add: new_array_content_def quoted_def)
  define r2 where "r2 = concat (map (\<lambda>k. pre k @ g1 k @ ?nb2 @ g3 k) (finditer (post ?m1))) @ remainder (post ?m1)"
  define c2 where "c2 = pre m @ g1 m @ ?nb2 @ 93 # 59 # r2"
  define w2 where "w2 = w1\<lparr>files := (files w1)(html_file \<mapsto> Text c2)\<rparr>"
  from patch_plain [OF f1 s1 p2 e1 assms(10)]
  have a2: "add_image_to_html f2 html_file w1 = (Inr True, w2)"
    unfolding n2 finditer_first [OF s1] w2_def c2_def r2_def by simp
  have nc2: "\<not> has_close ?nb2"
    using assms(7,8)
    by (simp add: indent_simp quoted_def has_close_Cons has_close_snoc
        has_close_append [of f1] has_close_append [of f2])
  from re_search_replace [OF assms(2) nc2, of r2]
  have s2: "re_search c2 = Some \<lparr>pre = pre m, g1 = g1 m, g2 = ?nb2, g3 = py ''];'', post = r2\<rparr>"
    unfolding c2_def by (simp add: py_Nil py_Cons)
  have f2: "files w2 html_file = Some (Text c2)" by (simp add: w2_def)
  from a1 a2 f2 s2 show ?thesis by blast
qed

theorem two_appends_amended_witness:
  "files (site (page empty_list)) (py ''index.html'') = Some (Text (page empty_list)) \<and>
   re_search (universal_newlines (page empty_list)) =
     Some \<lparr>pre = py ''<script>'', g1 = py ''const images = ['', g2 = [], g3 = py ''];'',
           post = py ''</script>''\<rparr> \<and>
   strip [] = [] \<and> encodable (page empty_list) \<and>
   BACKSLASH \<notin> set (py ''a.jpg'') \<and> BACKSLASH \<notin> set (py ''b.jpg'') \<and>
   \<not> has_close (py ''a.jpg'') \<and> \<not> has_close (py ''b.jpg'') \<and>
   encodable (py ''a.jpg'') \<and> encodable (py ''b.jpg'') \<and> 13 \<notin> set (py ''a.jpg'') \<and>
   (\<exists>w1 w2 content2 after.
      add_image_to_html (py ''a.jpg'') (py ''index.html'') (site (page empty_list)) = (Inr True, w1) \<and>
      add_image_to_html (py ''b.jpg'') (py ''index.html'') w1 = (Inr True, w2) \<and>
      files w2 (py ''index.html'') = Some (Text content2) \<and>
      re_search content2 =
        Some \<lparr>pre = py ''<script>'', g1 = py ''const images = ['',
              g2 = quoted (py ''a.jpg'') @ [COMMA, NEWLINE] @ indent @ quoted (py ''b.jpg''),
              g3 = py ''];'', post = after\<rparr>)"
proof -
  let ?m = "\<lparr>pre = py ''<script>'', g1 = py ''const images = ['', g2 = [], g3 = py ''];'',
           post = py ''</script>''\<rparr>"
  have h1: "files (site (page empty_list)) (py ''index.html'') = Some (Text (page empty_list))"
    by (simp add: site_def)
  have h3: "strip (g2 ?m) = []" by (simp add: strip_def)
  have h4: "encodable (page empty_list)" by (simp add: page_def empty_list_def eval_simps)
  have h5: "BACKSLASH \<notin> set (py ''a.jpg'')" and h6: "BACKSLASH \<notin> set (py ''b.jpg'')"
    by (simp_all add: eval_simps)
  have h7: "\<not> has_close (py ''a.jpg'')" and h8: "\<not> has_close (py ''b.jpg'')"
    by (simp_all add: eval_simps)
  have h9: "encodable (py ''a.jpg'')" and h10: "encodable (py ''b.jpg'')"
    and h11: "13 \<notin> set (py ''a.jpg'')"
    by (simp_all add: eval_simps)
  from two_appends_amended [OF h1 empty_list_search h3 h4 h5 h6 h7 h8 h9 h10 h11]
  have "\<exists>w1 w2 content2 after.
      add_image_to_html (py ''a.jpg'') (py ''index.html'') (site (page empty_list)) = (Inr True, w1) \<and>
      add_image_to_html (py ''b.jpg'') (py ''index.html'') w1 = (Inr True, w2) \<and>
      files w2 (py ''index.html'') = Some (Text content2) \<and>
      re_search content2 =
        Some \<lparr>pre = py ''<script>'', g1 = py ''const images = ['',
              g2 = quoted (py ''a.jpg'') @ [COMMA, NEWLINE] @ indent @ quoted (py ''b.jpg''),
              g3 = py ''];'', post = after\<rparr>"
    by simp
  moreover have "strip [] = ([]::pystr)" by (simp add: strip_def)
  ultimately show ?thesis using h1 empty_list_search h4 h5 h6 h7 h8 h9 h10 h11 by blast
qed

subsection \<open>Appending after a trailing comma\<close>

text \<open>
  C5. The code means to insert the new body as it is (\<open>Replace the old array with the new
  one\<close>), but hands it to \<open>re.sub\<close> inside the replacement template, unescaped and right
  after \<open>\1\<close>; so the claim fails on bodies and file names that the template reads
  otherwise. For the body \<open>"a.jpg",\<close> and the file name \<open>\2,\<close> the patch returns \<open>True\<close>
  and the template puts group 2 where the name should be: the body written holds two
  commas in a row, which neither the old body nor the file name does, and its last entry
  is not the quoted file name. For the body \<open>1,\<close> the template begins \<open>\11\<close>, a group the
  pattern does not have: \<open>re.sub\<close> raises and nothing is appended.
\<close>

theorem trailing_comma_failing_input:
  "add_image_to_html [BACKSLASH, 50, COMMA] (py ''index.html'') (site (page comma_entry)) =
     (Inr True, site (page (py ''const images = ['' @
        (quoted (py ''a.jpg'') @ [COMMA, NEWLINE] @ indent @ [DQUOTE] @ quoted (py ''a.jpg'') @ [COMMA, COMMA, DQUOTE])
        @ py ''];''))) \<and>
   strip (g2 (the (re_search (universal_newlines (page comma_entry))))) = quoted (py ''a.jpg'') @ [COMMA] \<and>
   \<not> double_comma (quoted (py ''a.jpg'') @ [COMMA]) \<and>
   \<not> double_comma [BACKSLASH, 50, COMMA] \<and>
   double_comma (quoted (py ''a.jpg'') @ [COMMA, NEWLINE] @ indent @ [DQUOTE] @ quoted (py ''a.jpg'') @ [COMMA, COMMA, DQUOTE]) \<and>
   quoted (py ''a.jpg'') @ [COMMA, NEWLINE] @ indent @ [DQUOTE] @ quoted (py ''a.jpg'') @ [COMMA, COMMA, DQUOTE] \<noteq>
     quoted (py ''a.jpg'') @ [COMMA] @ [NEWLINE] @ indent @ quoted [BACKSLASH, 50, COMMA] \<and>
   strip (g2 (the (re_search (universal_newlines (page (py ''const images = [1,];'')))))) = py ''1,'' \<and>
   add_image_to_html (py ''b.jpg'') (py ''index.html'') (site (page (py ''const images = [1,];''))) =
     (Inl TemplateError, site (page (py ''const images = [1,];'')))"
  by (simp add: add_image_to_html_def site_def page_def comma_entry_def eval_simps)

subsection \<open>The exit status\<close>

text \<open>
  C6. \<open>main\<close> exits with 1 on each failure the claim lists and does not look at what
  \<open>commit_and_push_changes\<close> returns: when every git command exits with a failure the
  status is 0 (last conjunct), and so it is on every run where the output of git decodes
  (\<open>main_exit_status_decodable\<close>). But \<open>run_git_command\<close> catches \<open>CalledProcessError\<close>
  only, and \<open>subprocess.run\<close> with \<open>text=True\<close> raises \<open>UnicodeDecodeError\<close> when the
  output of the command is no UTF-8. For a \<open>git push\<close> that prints such bytes, after the
  copy, the patch, \<open>git add\<close> and \<open>git commit\<close> succeeded, the exception leaves \<open>main\<close>
  and the process ends with status 1, although the image is installed and the document
  patched.
\<close>

theorem publisher_exception_failing_input:
  "main garbled_push [py ''add_image.py'', py ''photo.jpg''] gallery =
     (1, \<lparr>files = [py ''photo.jpg'' \<mapsto> Bytes [255, 216, 255, 224],
                    py ''images/photo.jpg'' \<mapsto> Bytes [255, 216, 255, 224],
                    py ''index.html'' \<mapsto> Text (page (py ''const images = ['' @ [NEWLINE] @ indent
                       @ quoted (py ''photo.jpg'') @ [NEWLINE] @ indent @ py ''];''))],
           stdout = [MsgCopied (py ''photo.jpg'') (py ''images''), MsgAdded (py ''photo.jpg''),
                     MsgPublishing, MsgAddingFiles, MsgCommitting, MsgPushing],
           commands = [py ''git rev-parse --git-dir'', py ''git add images/photo.jpg index.html'',
                       py ''git commit -m '' @ quoted (py ''Add image: photo.jpg''), py ''git push'']\<rparr>) \<and>
   fst (add_image_to_html (py ''photo.jpg'') (py ''index.html'')
          (print (MsgCopied (py ''photo.jpg'') (py ''images''))
             (gallery\<lparr>files := (files gallery)(py ''images/photo.jpg'' \<mapsto> Bytes [255, 216, 255, 224])\<rparr>))) =
     Inr True \<and>
   shell garbled_push (py ''git push'') = UndecodableOutput \<and>
   fst (main broken_git [py ''add_image.py'', py ''photo.jpg''] gallery) = 0"
  by (simp add: world_simps eval_simps fun_upd_twist)

subsection \<open>A commit that fails\<close>

text \<open>
  C7, as stated, fails: \<open>run_git_command\<close> has printed the failure of the commit before
  the status is looked at, and \<open>commit_and_push_changes\<close> returns \<open>False\<close> with or without
  pending changes; the informational line comes on top of the failure report, not in its
  place.
\<close>

theorem commit_failure_counterexample:
  "fst (commit_and_push_changes nothing_to_commit (py ''a.jpg'') None (site empty_list)) = Inr False \<and>
   stdout (snd (commit_and_push_changes nothing_to_commit (py ''a.jpg'') None (site empty_list))) =
     [MsgPublishing, MsgAddingFiles, MsgCommitting,
      MsgError (py ''Failed to commit changes''), MsgDetails (py ''nothing to commit''),
      MsgNoChanges] \<and>
   fst (commit_and_push_changes pending_changes (py ''a.jpg'') None (site empty_list)) = Inr False \<and>
   stdout (snd (commit_and_push_changes pending_changes (py ''a.jpg'') None (site empty_list))) =
     [MsgPublishing, MsgAddingFiles, MsgCommitting,
      MsgError (py ''Failed to commit changes''), MsgDetails (py ''rejected'')]"
  by (simp add: world_simps eval_simps)

text \<open>
  C7, amended. When the repository check and \<open>git add\<close> succeed and \<open>git commit\<close> exits
  with a failure, the publisher reports it (\<open>Error: Failed to commit changes\<close> and the
  details), runs \<open>git status --porcelain\<close> and never runs \<open>git push\<close>. When the status
  query answers, the publisher returns \<open>False\<close>, after the line \<open>No changes to commit\<close>
  when the answer is blank and with no further line when it shows pending changes. When
  the status query itself exits with a failure, two more lines report that (\<open>Error:\<close>
  with an empty message, and the details), \<open>No changes to commit\<close> follows when its error
  output is blank, and the publisher returns \<open>False\<close>. When the output of the status query
  cannot be decoded, \<open>UnicodeDecodeError\<close> is raised.
\<close>

theorem commit_failure_amended:
  assumes "shell env (py ''git rev-parse --git-dir'') = Completed out1"
    and "shell env (py ''git add images/'' @ image_filename @ py '' index.html'') = Completed out2"
    and "message = (if commit_message = None \<or> commit_message = Some []
                    then py ''Add image: '' @ image_filename else the commit_message)"
    and "shell env (py ''git commit -m '' @ quoted message) = CalledProcessError err"
  shows "commit_and_push_changes env image_filename commit_message w =
     (case shell env (py ''git status --porcelain'') of
        Completed status \<Rightarrow> Inr False
      | CalledProcessError status_err \<Rightarrow> Inr False
      | UndecodableOutput \<Rightarrow> Inl UnicodeDecodeError,
      w\<lparr>stdout := stdout w @
            [MsgPublishing, MsgAddingFiles, MsgCommitting,
             MsgError (py ''Failed to commit changes''), MsgDetails err] @
            (case shell env (py ''git status --porcelain'') of
               Completed status \<Rightarrow> if strip status = [] then [MsgNoChanges] else []
             | CalledProcessError status_err \<Rightarrow>
                 [MsgError [], MsgDetails status_err] @
                 (if strip status_err = [] then [MsgNoChanges] else [])
             | UndecodableOutput \<Rightarrow> []),
         commands := commands w @
            [py ''git rev-parse --git-dir'',
             py ''git add images/'' @ image_filename @ py '' index.html'',
             py ''git commit -m '' @ quoted message,
             py ''git status --porcelain'']\<rparr>)"
  using assms(1,2,4) unfolding assms(3)
  by (cases "shell env (py ''git status --porcelain'')")
     (simp_all add: commit_and_push_changes_def check_git_repo_def run_git_command_def print_def Let_def)

theorem commit_failure_amended_witness:
  "shell nothing_to_commit (py ''git rev-parse --git-dir'') = Completed [] \<and>
   shell nothing_to_commit (py ''git add images/'' @ py ''a.jpg'' @ py '' index.html'') = Completed [] \<and>
   shell nothing_to_commit (py ''git commit -m '' @ quoted (py ''Add image: '' @ py ''a.jpg'')) =
     CalledProcessError (py ''nothing to commit'') \<and>
   shell nothing_to_commit (py ''git status --porcelain'') = Completed [] \<and>
   commit_and_push_changes nothing_to_commit (py ''a.jpg'') None (site empty_list) =
     (Inr False,
      (site empty_list)\<lparr>stdout :=
            [MsgPublishing, MsgAddingFiles, MsgCommitting,
             MsgError (py ''Failed to commit changes''), MsgDetails (py ''nothing to commit''),
             MsgNoChanges],
         commands :=
            [py ''git rev-parse --git-dir'', py ''git add images/a.jpg index.html'',
             py ''git commit -m '' @ quoted (py ''Add image: a.jpg''),
             py ''git status --porcelain'']\<rparr>) \<and>
   shell pending_changes (py ''git status --porcelain'') = Completed (py '' M index.html'') \<and>
   commit_and_push_changes pending_changes (py ''a.jpg'') None (site empty_list) =
     (Inr False,
      (site empty_list)\<lparr>stdout :=
            [MsgPublishing, MsgAddingFiles, MsgCommitting,
             MsgError (py ''Failed to commit changes''), MsgDetails (py ''rejected'')],
         commands :=
            [py ''git rev-parse --git-dir'', py ''git add images/a.jpg index.html'',
             py ''git commit -m '' @ quoted (py ''Add image: a.jpg''),
             py ''git status --porcelain'']\<rparr>) \<and>
   shell status_fails (py ''git status --porcelain'') = CalledProcessError (py ''index locked'') \<and>
   commit_and_push_changes status_fails (py ''a.jpg'') None (site empty_list) =
     (Inr False,
      (site empty_list)\<lparr>stdout :=
            [MsgPublishing, MsgAddingFiles, MsgCommitting,
             MsgError (py ''Failed to commit changes''), MsgDetails (py ''rejected''),
             MsgError [], MsgDetails (py ''index locked'')],
         commands :=
            [py ''git rev-parse --git-dir'', py ''git add images/a.jpg index.html'',
             py ''git commit -m '' @ quoted (py ''Add image: a.jpg''),
             py ''git status --porcelain'']\<rparr>) \<and>
   shell status_garbled (py ''git status --porcelain'') = UndecodableOutput \<and>
   commit_and_push_changes status_garbled (py ''a.jpg'') None (site empty_list) =
     (Inl UnicodeDecodeError,
      (site empty_list)\<lparr>stdout :=
            [MsgPublishing, MsgAddingFiles, MsgCommitting,
             MsgError (py ''Failed to commit changes''), MsgDetails (py ''rejected'')],
         commands :=
            [py ''git rev-parse --git-dir'', py ''git add images/a.jpg index.html'',
             py ''git commit -m '' @ quoted (py ''Add image: a.jpg''),
             py ''git status --porcelain'']\<rparr>)"
proof -
  let ?msg = "py ''Add image: '' @ py ''a.jpg''"
  have m: "?msg = (if (None::pystr option) = None \<or> (None::pystr option) = Some []
                   then py ''Add image: '' @ py ''a.jpg'' else the None)"
    by simp
  have a1: "shell nothing_to_commit (py ''git rev-parse --git-dir'') = Completed []"
    by (simp add: nothing_to_commit_def eval_simps)
  have a2: "shell nothing_to_commit (py ''git add images/'' @ py ''a.jpg'' @ py '' index.html'') = Completed []"
    by (simp add: nothing_to_commit_def eval_simps)
  have a3: "shell nothing_to_commit (py ''git commit -m '' @ quoted ?msg) =
              CalledProcessError (py ''nothing to commit'')"
    by (simp add: nothing_to_commit_def eval_simps)
  have a4: "shell nothing_to_commit (py ''git status --porcelain'') = Completed []"
    by (simp add: nothing_to_commit_def eval_simps)
  have b1: "shell pending_changes (py ''git rev-parse --git-dir'') = Completed []"
    by (simp add: pending_changes_def eval_simps)
  have b2: "shell pending_changes (py ''git add images/'' @ py ''a.jpg'' @ py '' index.html'') = Completed []"
    by (simp add: pending_changes_def eval_simps)
  have b3: "shell pending_changes (py ''git commit -m '' @ quoted ?msg) = CalledProcessError (py ''rejected'')"
    by (simp add: pending_changes_def eval_simps)
  have b4: "shell pending_changes (py ''git status --porcelain'') = Completed (py '' M index.html'')"
    by (simp add: pending_changes_def eval_simps)
  have c1: "shell status_fails (py ''git rev-parse --git-dir'') = Completed []"
    by (simp add: status_fails_def eval_simps)
  have c2: "shell status_fails (py ''git add images/'' @ py ''a.jpg'' @ py '' index.html'') = Completed []"
    by (simp add: status_fails_def eval_simps)
  have c3: "shell status_fails (py ''git commit -m '' @ quoted ?msg) = CalledProcessError (py ''rejected'')"
    by (simp add: status_fails_def eval_simps)
  have c4: "shell status_fails (py ''git status --porcelain'') = CalledProcessError (py ''index locked'')"
    by (simp add: status_fails_def eval_simps)
  have d1: "shell status_garbled (py ''git rev-parse --git-dir'') = Completed []"
    by (simp add: status_garbled_def eval_simps)
  have d2: "shell status_garbled (py ''git add images/'' @ py ''a.jpg'' @ py '' index.html'') = Completed []"
    by (simp add: status_garbled_def eval_simps)
  have d3: "shell status_garbled (py ''git commit -m '' @ quoted ?msg) = CalledProcessError (py ''rejected'')"
    by (simp add: status_garbled_def eval_simps)
  have d4: "shell status_garbled (py ''git status --porcelain'') = UndecodableOutput"
    by (simp add: status_garbled_def eval_simps)
  note t1 = commit_failure_amended [OF a1 a2 m a3, of "site empty_list", unfolded a4]
  note t2 = commit_failure_amended [OF b1 b2 m b3, of "site empty_list", unfolded b4]
  note t3 = commit_failure_amended [OF c1 c2 m c3, of "site empty_list", unfolded c4]
  note t4 = commit_failure_amended [OF d1 d2 m d3, of "site empty_list", unfolded d4]
  have e1: "commit_and_push_changes nothing_to_commit (py ''a.jpg'') None (site empty_list) =
     (Inr False,
      (site empty_list)\<lparr>stdout :=
            [MsgPublishing, MsgAddingFiles, MsgCommitting,
             MsgError (py ''Failed to commit changes''), MsgDetails (py ''nothing to commit''),
             MsgNoChanges],
         commands :=
            [py ''git rev-parse --git-dir'', py ''git add images/a.jpg index.html'',
             py ''git commit -m '' @ quoted (py ''Add image: a.jpg''),
             py ''git status --porcelain'']\<rparr>)"
    using t1 by (simp add: site_def eval_simps)
  have e2: "commit_and_push_changes pending_changes (py ''a.jpg'') None (site empty_list) =
     (Inr False,
      (site empty_list)\<lparr>stdout :=
            [MsgPublishing, MsgAddingFiles, MsgCommitting,
             MsgError (py ''Failed to commit changes''), MsgDetails (py ''rejected'')],
         commands :=
            [py ''git rev-parse --git-dir'', py ''git add images/a.jpg index.html'',
             py ''git commit -m '' @ quoted (py ''Add image: a.jpg''),
             py ''git status --porcelain'']\<rparr>)"
    using t2 by (simp add: site_def eval_simps)
  have e3: "commit_and_push_changes status_fails (py ''a.jpg'') None (site empty_list) =
     (Inr False,
      (site empty_list)\<lparr>stdout :=
            [MsgPublishing, MsgAddingFiles, MsgCommitting,
             MsgError (py ''Failed to commit changes''), MsgDetails (py ''rejected''),
             MsgError [], MsgDetails (py ''index locked'')],
         commands :=
            [py ''git rev-parse --git-dir'', py ''git add images/a.jpg index.html'',
             py ''git commit -m '' @ quoted (py ''Add image: a.jpg''),
             py ''git status --porcelain'']\<rparr>)"
    using t3 by (simp add: site_def eval_simps)
  have e4: "commit_and_push_changes status_garbled (py ''a.jpg'') None (site empty_list) =
     (Inl UnicodeDecodeError,
      (site empty_list)\<lparr>stdout :=
            [MsgPublishing, MsgAddingFiles, MsgCommitting,
             MsgError (py ''Failed to commit changes''), MsgDetails (py ''rejected'')],
         commands :=
            [py ''git rev-parse --git-dir'', py ''git add images/a.jpg index.html'',
             py ''git commit -m '' @ quoted (py ''Add image: a.jpg''),
             py ''git status --porcelain'']\<rparr>)"
    using t4 by (simp add: site_def eval_simps)
  from a1 a2 a3 a4 b4 c4 d4 e1 e2 e3 e4 show ?thesis by blast
qed

subsection \<open>The two scripts\<close>

text \<open>
  C8. The two scripts patch the manifest alike: on every world, document path and file
  name, \<open>add_image_to_html\<close> of update.py returns what \<open>add_image_to_html\<close> of
  add_image.py returns (or raises what it raises) and leaves the same world, so the same
  patched document.
\<close>

theorem update_add_image_to_html_same:
  "update_add_image_to_html image_filename html_file w = add_image_to_html image_filename html_file w"
  by (simp add: update_add_image_to_html_def add_image_to_html_def)

subsection \<open>Several declarations\<close>

text \<open>
  C9. \<open>re.sub\<close> is called without a count and rewrites every occurrence, and the code
  computes one new body, from the first occurrence, for all of them. But the new body is
  part of the replacement template, unescaped (the defect of C5), so the occurrences need
  not get that body. With the two declarations \<open>["a"]\<close> and \<open>["b"]\<close> and the file name
  \<open>\2\<close> the patch returns \<open>True\<close>, and each occurrence gets its own old body in place of
  the name: the two bodies written differ. With the bodies \<open>1\<close> and \<open>2\<close> the template begins \<open>\11\<close>: \<open>re.sub\<close> raises and no
  occurrence is rewritten.
\<close>

theorem every_occurrence_failing_input:
  "length (finditer (universal_newlines two_lists)) = 2 \<and>
   new_array_content (strip (g2 (the (re_search (universal_newlines two_lists))))) [BACKSLASH, 50] =
     quoted (py ''a'') @ [COMMA, NEWLINE] @ indent @ quoted [BACKSLASH, 50] \<and>
   add_image_to_html [BACKSLASH, 50] (py ''index.html'') (site two_lists) =
     (Inr True, site (
        py ''const images = ['' @ (quoted (py ''a'') @ [COMMA, NEWLINE] @ indent @ quoted (quoted (py ''a''))) @ py ''];'' @
        py ''const images = ['' @ (quoted (py ''a'') @ [COMMA, NEWLINE] @ indent @ quoted (quoted (py ''b''))) @ py ''];'')) \<and>
   quoted (py ''a'') @ [COMMA, NEWLINE] @ indent @ quoted (quoted (py ''a'')) \<noteq>
   quoted (py ''a'') @ [COMMA, NEWLINE] @ indent @ quoted (quoted (py ''b'')) \<and>
   length (finditer (universal_newlines (py ''const images = [1];const images = [2];''))) = 2 \<and>
   add_image_to_html (py ''b.jpg'') (py ''index.html'') (site (py ''const images = [1];const images = [2];'')) =
     (Inl TemplateError, site (py ''const images = [1];const images = [2];''))"
  by (simp add: add_image_to_html_def site_def two_lists_def finditer.simps new_array_content_def
      eval_simps)

subsection \<open>A missing document\<close>

text \<open>
  C10. When \<open>index.html\<close> does not exist, \<open>add_image_to_html\<close> reports the failure and
  writes nothing, and \<open>main\<close> ends with status 1 while the file copied to \<open>images/\<close>
  stays there: the files are the old ones plus the copy, and nothing is rolled back.
\<close>

theorem missing_html_keeps_asset:
  assumes "2 \<le> length argv" and "files w (argv ! 1) = Some asset"
    and "\<not> makedirs_raises env (py ''images'')"
    and "\<not> copy2_raises env (argv ! 1) (path_join (py ''images'') (basename (argv ! 1)))"
    and "files w (py ''index.html'') = None"
  shows "main env argv w =
     (1, w\<lparr>files := (files w)(path_join (py ''images'') (basename (argv ! 1)) \<mapsto> asset),
           stdout := stdout w @ [MsgCopied (basename (argv ! 1)) (py ''images''),
                                 MsgHtmlNotFound (py ''index.html''), MsgUpdateFailed]\<rparr>)"
proof -
  let ?dest = "path_join (py ''images'') (basename (argv ! 1))"
  let ?w1 = "print (MsgCopied (basename (argv ! 1)) (py ''images''))
               (w\<lparr>files := (files w)(?dest \<mapsto> the (files w (argv ! 1)))\<rparr>)"
  have "files ?w1 (py ''index.html'') = None"
    using assms(5) destination_not_html [of "argv ! 1"] by (simp add: print_def)
  then have "add_image_to_html (basename (argv ! 1)) (py ''index.html'') ?w1 =
      (Inr False, print (MsgHtmlNotFound (py ''index.html'')) ?w1)"
    by (simp add: add_image_to_html_def)
  with assms show ?thesis
    by (simp add: main_def Let_def exists_def print_def)
qed

theorem missing_html_keeps_asset_witness:
  "2 \<le> length [py ''add_image.py'', py ''photo.jpg''] \<and>
   files no_page (py ''photo.jpg'') = Some (Bytes [255, 216, 255, 224]) \<and>
   files no_page (py ''index.html'') = None \<and>
   main broken_git [py ''add_image.py'', py ''photo.jpg''] no_page =
     (1, \<lparr>files = [py ''photo.jpg'' \<mapsto> Bytes [255, 216, 255, 224],
                    py ''images/photo.jpg'' \<mapsto> Bytes [255, 216, 255, 224]],
           stdout = [MsgCopied (py ''photo.jpg'') (py ''images''),
                     MsgHtmlNotFound (py ''index.html''), MsgUpdateFailed],
           commands = []\<rparr>)"
proof -
  let ?argv = "[py ''add_image.py'', py ''photo.jpg'']"
  have h1: "2 \<le> length ?argv" by simp
  have h2: "files no_page (?argv ! 1) = Some (Bytes [255, 216, 255, 224])" by (simp add: no_page_def)
  have h3: "\<not> makedirs_raises broken_git (py ''images'')" by (simp add: broken_git_def)
  have h4: "\<not> copy2_raises broken_git (?argv ! 1) (path_join (py ''images'') (basename (?argv ! 1)))"
    by (simp add: broken_git_def)
  have h5: "files no_page (py ''index.html'') = None" by (simp add: no_page_def eval_simps)
  from missing_html_keeps_asset [OF h1 h2 h3 h4 h5] h2 h5 show ?thesis
    by (simp add: no_page_def basename_def path_join_def eval_simps)
qed

end
